theory Spec2Isabelle
  imports Complex_Main "HOL-Library.Word"
begin

section \<open>Strings\<close>

text \<open>
  A JavaScript string is modelled as a \<^typ>\<open>string\<close>, one \<^typ>\<open>char\<close> per code unit;
  the model covers code units below 256. There \<^verbatim>\<open>toLowerCase\<close> maps \<open>A\<close>..\<open>Z\<close> and
  the accented capitals (code units 192 to 222, without the multiplication sign 215) to
  the small letter 32 code units higher, and changes nothing else.
\<close>

definition toLowerCaseChar :: "char \<Rightarrow> char" where
  "toLowerCaseChar c =
     (let n = (of_char c :: nat)
      in if (65 \<le> n \<and> n \<le> 90) \<or> (192 \<le> n \<and> n \<le> 222 \<and> n \<noteq> 215) then char_of (n + 32)
         else c)"

definition toLowerCase :: "string \<Rightarrow> string" where
  "toLowerCase s = map toLowerCaseChar s"

text \<open>\<^verbatim>\<open>s.split(sep)\<close> for a one-character separator: never an empty array.\<close>

fun splitOn :: "char \<Rightarrow> string \<Rightarrow> string list" where
  "splitOn sep [] = [[]]"
| "splitOn sep (c # cs) =
     (if c = sep then [] # splitOn sep cs
      else (case splitOn sep cs of p # ps \<Rightarrow> (c # p) # ps | [] \<Rightarrow> [[c]]))"

text \<open>\<^verbatim>\<open>parts.join(sep)\<close>.\<close>

fun join :: "string \<Rightarrow> string list \<Rightarrow> string" where
  "join sep [] = []"
| "join sep [p] = p"
| "join sep (p # q # ps) = p @ sep @ join sep (q # ps)"

text \<open>\<^verbatim>\<open>parts.pop()\<close> followed by \<^verbatim>\<open>|| ""\<close>: the last element, the empty string when
  there is none (or when it is empty).\<close>

definition popOrEmpty :: "string list \<Rightarrow> string" where
  "popOrEmpty parts = (if parts = [] then [] else last parts)"

definition endsWith :: "string \<Rightarrow> string \<Rightarrow> bool" where
  "endsWith s suf = (length suf \<le> length s \<and> drop (length s - length suf) s = suf)"

text \<open>The white space of \<^verbatim>\<open>\s\<close> and of \<^verbatim>\<open>parseFloat\<close>'s trimming, below code unit 256:
  TAB, LF, VT, FF, CR, SPACE and NBSP.\<close>

definition isWhiteSpace :: "char \<Rightarrow> bool" where
  "isWhiteSpace c = (c \<in> set [CHR 0x09, CHR 0x0A, CHR 0x0B, CHR 0x0C, CHR 0x0D, CHR 0x20, CHR 0xA0])"

text \<open>\<^verbatim>\<open>s.split(/\s+/)\<close>: every maximal run of white space is one separator, so leading or
  trailing white space yields an empty first or last piece.\<close>

function splitWhitespace :: "string \<Rightarrow> string list" where
  "splitWhitespace [] = [[]]"
| "splitWhitespace (c # cs) =
     (if isWhiteSpace c then [] # splitWhitespace (dropWhile isWhiteSpace cs)
      else (case splitWhitespace cs of p # ps \<Rightarrow> (c # p) # ps | [] \<Rightarrow> [[c]]))"
  by pat_completeness auto
termination
  by (relation "measure length") (auto simp add: le_imp_less_Suc length_dropWhile_le)

section \<open>Numbers\<close>

text \<open>
  A JavaScript Number is \<open>NaN\<close>, an infinity, or a finite binary64 value, which is kept as
  the rational it denotes (the two zeros are one value; both are falsy). \<open>toNumber\<close>
  below gives the Number for a real value: the nearest binary64 value, ties to the even
  significand, an infinity from \<open>2 ^ 1024 - 2 ^ 970\<close> on, zero for what is nearer to zero
  than to \<open>2 ^ -1074\<close>.
\<close>

datatype jsnum = NaN | PosInfinity | NegInfinity | Num rat

definition isFinite :: "jsnum \<Rightarrow> bool" where
  "isFinite x = (case x of Num r \<Rightarrow> True | _ \<Rightarrow> False)"

definition isInteger :: "jsnum \<Rightarrow> bool" where
  "isInteger x = (case x of Num r \<Rightarrow> of_int \<lfloor>r\<rfloor> = r | _ \<Rightarrow> False)"

text \<open>Truthiness of a Number: \<open>NaN\<close> and zero are falsy. \<^verbatim>\<open>a || b\<close> on Numbers.\<close>

definition truthy :: "jsnum \<Rightarrow> bool" where
  "truthy x = (x \<noteq> NaN \<and> x \<noteq> Num 0)"

definition orElse :: "jsnum \<Rightarrow> jsnum \<Rightarrow> jsnum" where
  "orElse a b = (if truthy a then a else b)"

text \<open>The number of binary digits of a positive integer.\<close>

function bitLength :: "int \<Rightarrow> int" where
  "bitLength n = (if n \<le> 0 then 0 else 1 + bitLength (n div 2))"
  by pat_completeness auto
termination
  by (relation "measure nat") auto

declare bitLength.simps [simp del]

definition pow2 :: "int \<Rightarrow> rat" where
  "pow2 k = (if k \<ge> 0 then 2 ^ nat k else 1 / 2 ^ nat (- k))"

text \<open>The binary exponent of a value other than zero: \<open>2 ^ e \<le> \<bar>v\<bar> < 2 ^ (e + 1)\<close>.\<close>

definition exponentOf :: "rat \<Rightarrow> int" where
  "exponentOf v =
     (if \<bar>v\<bar> \<ge> 1 then bitLength \<lfloor>\<bar>v\<bar>\<rfloor> - 1
      else - bitLength (\<lceil>1 / \<bar>v\<bar>\<rceil> - 1))"

text \<open>The distance between the binary64 values around \<open>v\<close>: 53 significant bits, and the
  spacing of the subnormal values below \<open>2 ^ -1022\<close>.\<close>

definition ulp :: "rat \<Rightarrow> rat" where
  "ulp v = pow2 (max (exponentOf v) (- 1022) - 52)"

definition roundTiesToEven :: "rat \<Rightarrow> int" where
  "roundTiesToEven x =
     (if x - of_int \<lfloor>x\<rfloor> < 1 / 2 then \<lfloor>x\<rfloor>
      else if x - of_int \<lfloor>x\<rfloor> > 1 / 2 then \<lfloor>x\<rfloor> + 1
      else if even \<lfloor>x\<rfloor> then \<lfloor>x\<rfloor> else \<lfloor>x\<rfloor> + 1)"

text \<open>The magnitude of the nearest binary64 value.\<close>

definition nearest :: "rat \<Rightarrow> rat" where
  "nearest v = of_int (roundTiesToEven (\<bar>v\<bar> / ulp v)) * ulp v"

definition toNumber :: "rat \<Rightarrow> jsnum" where
  "toNumber v =
     (if nearest v \<ge> 2 ^ 1024 then (if v < 0 then NegInfinity else PosInfinity)
      else Num (if v < 0 then - nearest v else nearest v))"

definition isDigit :: "char \<Rightarrow> bool" where
  "isDigit c = (let n = (of_char c :: nat) in 48 \<le> n \<and> n \<le> 57)"

definition digitsValue :: "string \<Rightarrow> nat" where
  "digitsValue ds = foldl (\<lambda>acc c. 10 * acc + (of_char c - 48)) 0 ds"

text \<open>An optional sign: whether it is a minus, and the rest.\<close>

definition parseSign :: "string \<Rightarrow> bool \<times> string" where
  "parseSign s =
     (case s of
        [] \<Rightarrow> (False, [])
      | c # r \<Rightarrow> if c = CHR ''-'' then (True, r) else if c = CHR ''+'' then (False, r)
                 else (False, s))"

text \<open>The exponent part, if the text starts with a complete one (\<open>e\<close> or \<open>E\<close>, an optional
  sign, at least one digit); otherwise no exponent is read.\<close>

definition parseExponent :: "string \<Rightarrow> int" where
  "parseExponent s =
     (case s of
        [] \<Rightarrow> 0
      | c # r \<Rightarrow>
          if c = CHR ''e'' \<or> c = CHR ''E''
          then (let (neg, r') = parseSign r; ds = takeWhile isDigit r'
                in if ds = [] then 0
                   else if neg then - int (digitsValue ds) else int (digitsValue ds))
          else 0)"

definition scale10 :: "rat \<Rightarrow> int \<Rightarrow> rat" where
  "scale10 v e = (if e \<ge> 0 then v * 10 ^ nat e else v / 10 ^ nat (- e))"

text \<open>
  \<^verbatim>\<open>parseFloat\<close>: leading white space is skipped, the longest prefix that is a decimal
  literal (sign, \<open>Infinity\<close> or digits with an optional fraction and exponent) is read,
  whatever follows is ignored; no such prefix gives \<open>NaN\<close>.
\<close>

definition parseFloat :: "string \<Rightarrow> jsnum" where
  "parseFloat input =
     (let (neg, s) = parseSign (dropWhile isWhiteSpace input)
      in if take 8 s = ''Infinity'' then (if neg then NegInfinity else PosInfinity)
         else
           (let intDigits = takeWhile isDigit s;
                r = dropWhile isDigit s;
                (fracDigits, r') =
                  (case r of
                     [] \<Rightarrow> ([], [])
                   | c # t \<Rightarrow> if c = CHR ''.'' then (takeWhile isDigit t, dropWhile isDigit t)
                              else ([], r))
            in if intDigits = [] \<and> fracDigits = [] then NaN
               else
                 (let m = of_nat (digitsValue intDigits)
                            + of_nat (digitsValue fracDigits) / 10 ^ length fracDigits;
                      v = scale10 m (parseExponent r')
                  in toNumber (if neg then - v else v))))"

section \<open>The parsed document\<close>

text \<open>
  The result of \<^verbatim>\<open>DOMParser.parseFromString\<close> is its tree of elements, each with its
  qualified name (\<open>svg\<close>, or \<open>s:svg\<close> with a namespace prefix).
  \<^verbatim>\<open>doc.querySelector("svg")\<close> is the first element in document order whose local name is
  \<open>svg\<close>, whatever its prefix; \<^verbatim>\<open>getAttribute\<close> is \<open>None\<close> for \<^verbatim>\<open>null\<close>.
\<close>

datatype element =
  Element (tagName: string) (attributes: "(string \<times> string) list") (children: "element list")

fun firstSome :: "'a option list \<Rightarrow> 'a option" where
  "firstSome [] = None"
| "firstSome (x # xs) = (case x of Some y \<Rightarrow> Some y | None \<Rightarrow> firstSome xs)"

definition localName :: "string \<Rightarrow> string" where
  "localName n =
     (if CHR '':'' \<in> set n then tl (dropWhile (\<lambda>c. c \<noteq> CHR '':'') n) else n)"

fun querySelector :: "string \<Rightarrow> element \<Rightarrow> element option" where
  "querySelector t (Element n as cs) =
     (if localName n = t then Some (Element n as cs) else firstSome (map (querySelector t) cs))"

definition getAttribute :: "element \<Rightarrow> string \<Rightarrow> string option" where
  "getAttribute el n = map_of (attributes el) n"

text \<open>\<^verbatim>\<open>svg.getAttribute(n) || ""\<close>.\<close>

definition attributeOrEmpty :: "element \<Rightarrow> string \<Rightarrow> string" where
  "attributeOrEmpty el n = (case getAttribute el n of None \<Rightarrow> [] | Some v \<Rightarrow> v)"

section \<open>Errors, blobs, files\<close>

type_synonym byte = "8 word"

text \<open>A thrown value: a \<^verbatim>\<open>RangeError\<close> of a \<^verbatim>\<open>DataView\<close>, another \<^verbatim>\<open>Error\<close> with its
  message, or a value that is not an \<^verbatim>\<open>Error\<close>.\<close>

datatype js_error = RangeError | JsError string | NonError

record blob =
  bytes :: "byte list"
  mime :: string

record jsfile =
  name :: string
  type :: string
  content :: "byte list"

definition bind :: "js_error + 'a \<Rightarrow> ('a \<Rightarrow> js_error + 'b) \<Rightarrow> js_error + 'b" where
  "bind m f = (case m of Inl e \<Rightarrow> Inl e | Inr x \<Rightarrow> f x)"

section \<open>isAcceptedFile, getBaseName\<close>

definition ACCEPTED_TYPES :: "string list" where
  "ACCEPTED_TYPES = [''image/png'', ''image/jpeg'', ''image/jpg'', ''image/svg+xml'']"

definition isAcceptedFile :: "jsfile \<Rightarrow> bool" where
  "isAcceptedFile file =
     (if type file \<in> set ACCEPTED_TYPES then True
      else (let extension = popOrEmpty (splitOn (CHR ''.'') (toLowerCase (name file)))
            in extension \<in> set [''png'', ''jpg'', ''jpeg'', ''svg'']))"

definition getBaseName :: "string \<Rightarrow> string" where
  "getBaseName filename =
     (let parts = splitOn (CHR ''.'') filename
      in if length parts = 1 then filename else join ''.'' (butlast parts))"

section \<open>parseSvgSize\<close>

definition DEFAULT_SVG_SIZE :: jsnum where
  "DEFAULT_SVG_SIZE = Num 256"

text \<open>
  \<^verbatim>\<open>parseSvgSize(svgText)\<close>, page.tsx lines 30-63. The parser is the browser's and is a
  parameter; \<open>Inl\<close> is a parser that throws, which the \<^verbatim>\<open>catch\<close> turns into the default.
\<close>

definition parseSvgSize :: "(string \<Rightarrow> js_error + element) \<Rightarrow> string \<Rightarrow> jsnum \<times> jsnum" where
  "parseSvgSize parseFromString svgText =
     (case parseFromString svgText of
        Inl e \<Rightarrow> (DEFAULT_SVG_SIZE, DEFAULT_SVG_SIZE)
      | Inr doc \<Rightarrow>
          (case querySelector ''svg'' doc of
             None \<Rightarrow> (DEFAULT_SVG_SIZE, DEFAULT_SVG_SIZE)
           | Some svg \<Rightarrow>
               (let widthAttr = attributeOrEmpty svg ''width'';
                    heightAttr = attributeOrEmpty svg ''height'';
                    width = parseFloat widthAttr;
                    height = parseFloat heightAttr
                in if isFinite width \<and> isFinite height then (width, height)
                   else
                     (case getAttribute svg ''viewBox'' of
                        None \<Rightarrow> (DEFAULT_SVG_SIZE, DEFAULT_SVG_SIZE)
                      | Some viewBox \<Rightarrow>
                          if viewBox = [] then (DEFAULT_SVG_SIZE, DEFAULT_SVG_SIZE)
                          else
                            (let parts = map parseFloat (splitWhitespace viewBox)
                             in if length parts = 4 \<and> list_all isFinite parts
                                then (parts ! 2, parts ! 3)
                                else (DEFAULT_SVG_SIZE, DEFAULT_SVG_SIZE))))))"

section \<open>Byte buffers and the DataView writes of the icon container builder\<close>

text \<open>
  An \<^verbatim>\<open>ArrayBuffer\<close> is a list of bytes. A \<^verbatim>\<open>DataView\<close> write converts its
  Number argument to the field's unsigned integer type (modulo \<open>2 ^ 8\<close>, \<open>2 ^ 16\<close>,
  \<open>2 ^ 32\<close>) and throws a \<^verbatim>\<open>RangeError\<close> when the field does not fit into the
  buffer. All multi-byte writes of \<^verbatim>\<open>buildIcoBlob\<close> pass \<^verbatim>\<open>littleEndian = true\<close>.
\<close>

definition newArrayBuffer :: "nat \<Rightarrow> byte list" where
  "newArrayBuffer n = replicate n 0"

definition setUint8 :: "byte list \<Rightarrow> nat \<Rightarrow> nat \<Rightarrow> js_error + byte list" where
  "setUint8 buf off v =
     (if off + 1 \<le> length buf then Inr (buf[off := of_nat v]) else Inl RangeError)"

definition setUint16 :: "byte list \<Rightarrow> nat \<Rightarrow> nat \<Rightarrow> js_error + byte list" where
  "setUint16 buf off v =
     (if off + 2 \<le> length buf
      then Inr (buf[off := of_nat v, off + 1 := of_nat (v div 256)])
      else Inl RangeError)"

definition setUint32 :: "byte list \<Rightarrow> nat \<Rightarrow> nat \<Rightarrow> js_error + byte list" where
  "setUint32 buf off v =
     (if off + 4 \<le> length buf
      then Inr (buf[off := of_nat v, off + 1 := of_nat (v div 256),
                    off + 2 := of_nat (v div 65536), off + 3 := of_nat (v div 16777216)])
      else Inl RangeError)"

text \<open>\<^verbatim>\<open>new Uint8Array(buffer, off).set(src)\<close>: copy \<open>src\<close> into the buffer from \<open>off\<close>.\<close>

definition setBytes :: "byte list \<Rightarrow> nat \<Rightarrow> byte list \<Rightarrow> js_error + byte list" where
  "setBytes buf off src =
     (if off \<le> length buf \<and> length src \<le> length buf - off
      then Inr (take off buf @ src @ drop (off + length src) buf)
      else Inl RangeError)"

text \<open>The little-endian reads a consumer of the container performs.\<close>

definition getUint8 :: "byte list \<Rightarrow> nat \<Rightarrow> nat" where
  "getUint8 buf off = unat (buf ! off)"

definition getUint16 :: "byte list \<Rightarrow> nat \<Rightarrow> nat" where
  "getUint16 buf off = unat (buf ! off) + 256 * unat (buf ! (off + 1))"

definition getUint32 :: "byte list \<Rightarrow> nat \<Rightarrow> nat" where
  "getUint32 buf off =
     unat (buf ! off) + 256 * unat (buf ! (off + 1)) + 65536 * unat (buf ! (off + 2))
       + 16777216 * unat (buf ! (off + 3))"

section \<open>buildIcoBlob\<close>

text \<open>
  \<^verbatim>\<open>buildIcoBlob(pngData, size)\<close>, page.tsx lines 84-117. The running \<^verbatim>\<open>offset\<close>
  variable is written out as the constant it holds at each write.
\<close>

definition buildIcoBlob :: "byte list \<Rightarrow> nat \<Rightarrow> js_error + blob" where
  "buildIcoBlob pngData sz =
     (let headerSize = 6 + 16;
          totalSize = headerSize + length pngData;
          buffer = newArrayBuffer totalSize;
          iconSize = (if sz \<ge> 256 then 0 else sz)
      in bind (setUint16 buffer 0 0) (\<lambda>b.
         bind (setUint16 b 2 1) (\<lambda>b.
         bind (setUint16 b 4 1) (\<lambda>b.
         bind (setUint8 b 6 iconSize) (\<lambda>b.
         bind (setUint8 b 7 iconSize) (\<lambda>b.
         bind (setUint8 b 8 0) (\<lambda>b.
         bind (setUint8 b 9 0) (\<lambda>b.
         bind (setUint16 b 10 1) (\<lambda>b.
         bind (setUint16 b 12 32) (\<lambda>b.
         bind (setUint32 b 14 (length pngData)) (\<lambda>b.
         bind (setUint32 b 18 headerSize) (\<lambda>b.
         bind (setBytes b headerSize pngData) (\<lambda>b.
         Inr \<lparr>bytes = b, mime = ''image/x-icon''\<rparr>)))))))))))))"

section \<open>The browser and the archive library\<close>

text \<open>
  What the page calls but does not define is a parameter of the model: reading a file as
  text, encoding a string into a blob, the markup parser, the image decoder (the natural
  width and height on \<^verbatim>\<open>onload\<close>, \<open>None\<close> on \<^verbatim>\<open>onerror\<close>), whether a 2d context is
  available, the canvas encoder (\<open>None\<close> when \<^verbatim>\<open>toBlob\<close> calls back with \<^verbatim>\<open>null\<close>; its
  last argument is the quality, \<open>None\<close> when the call passes none) and the archive
  writer. Each is a function of its arguments.
\<close>

record image =
  src :: blob
  naturalWidth :: nat
  naturalHeight :: nat

text \<open>A fresh canvas after its size was set, it was cleared and one image was drawn at the
  origin, scaled to the given width and height.\<close>

record canvas =
  canvasWidth :: jsnum
  canvasHeight :: jsnum
  drawn :: "image \<times> jsnum \<times> jsnum"

record env =
  readText :: "jsfile \<Rightarrow> js_error + string"
  encodeText :: "string \<Rightarrow> byte list"
  parseFromString :: "string \<Rightarrow> js_error + element"
  imageLoad :: "blob \<Rightarrow> (nat \<times> nat) option"
  getContext :: bool
  toBlob :: "canvas \<Rightarrow> string \<Rightarrow> jsnum option \<Rightarrow> blob option"
  generateAsync :: "(string \<times> blob) list \<Rightarrow> js_error + blob"

text \<open>\<^verbatim>\<open>zip.file(name, data)\<close>: a new entry, or the replacement of the entry of that name.\<close>

definition zipFile :: "(string \<times> blob) list \<Rightarrow> string \<Rightarrow> blob \<Rightarrow> (string \<times> blob) list" where
  "zipFile entries n b =
     (if n \<in> fst ` set entries
      then map (\<lambda>(m, c). if m = n then (m, b) else (m, c)) entries
      else entries @ [(n, b)])"

section \<open>The page's state\<close>

datatype status = Ready | Working | Done | Error

record item =
  itemName :: string
  status :: status
  detail :: "string option"

datatype mode = Webp | Ico

text \<open>
  The React state of \<^verbatim>\<open>Home\<close> (\<open>files\<close>, \<open>items\<close>, \<open>busy\<close>, \<open>quality\<close>, \<open>iconSize\<close>), the
  object URLs that were created and not yet revoked, the number of object URLs created
  so far, and the downloads triggered so far. \<open>history\<close> records every earlier value of
  \<open>items\<close>, oldest first, so that the transitions of an item can be stated.
\<close>

record state =
  files :: "jsfile list"
  items :: "item list"
  busy :: bool
  quality :: jsnum
  iconSize :: nat
  liveUrls :: "nat list"
  urlCount :: nat
  downloads :: "(string \<times> blob) list"
  history :: "item list list"

definition itemsTrace :: "state \<Rightarrow> item list list" where
  "itemsTrace st = history st @ [items st]"

definition createObjectURL :: "state \<Rightarrow> nat \<times> state" where
  "createObjectURL st =
     (urlCount st, st\<lparr>liveUrls := liveUrls st @ [urlCount st], urlCount := Suc (urlCount st)\<rparr>)"

definition revokeObjectURL :: "nat \<Rightarrow> state \<Rightarrow> state" where
  "revokeObjectURL url st = st\<lparr>liveUrls := removeAll url (liveUrls st)\<rparr>"

definition downloadBlob :: "blob \<Rightarrow> string \<Rightarrow> state \<Rightarrow> state" where
  "downloadBlob b filename st =
     (let (url, st1) = createObjectURL st;
          st2 = st1\<lparr>downloads := downloads st1 @ [(filename, b)]\<rparr>
      in revokeObjectURL url st2)"

definition setItems :: "(item list \<Rightarrow> item list) \<Rightarrow> state \<Rightarrow> state" where
  "setItems f st = st\<lparr>items := f (items st), history := history st @ [items st]\<rparr>"

definition syncItems :: "jsfile list \<Rightarrow> state \<Rightarrow> state" where
  "syncItems nextFiles =
     setItems (\<lambda>prev. map (\<lambda>file. \<lparr>itemName = name file, status = Ready, detail = None\<rparr>) nextFiles)"

definition handleFiles :: "jsfile list \<Rightarrow> state \<Rightarrow> state" where
  "handleFiles incoming st =
     (let filtered = filter isAcceptedFile incoming
      in syncItems filtered (st\<lparr>files := filtered\<rparr>))"

text \<open>The three patches \<^verbatim>\<open>convertAll\<close> passes to \<^verbatim>\<open>updateItem\<close>.\<close>

definition workingPatch :: "item \<Rightarrow> item" where
  "workingPatch it = it\<lparr>status := Working, detail := None\<rparr>"

definition donePatch :: "item \<Rightarrow> item" where
  "donePatch it = it\<lparr>status := Done\<rparr>"

definition errorPatch :: "string \<Rightarrow> item \<Rightarrow> item" where
  "errorPatch message it = it\<lparr>status := Error, detail := Some message\<rparr>"

definition updateItem :: "string \<Rightarrow> (item \<Rightarrow> item) \<Rightarrow> state \<Rightarrow> state" where
  "updateItem n patch = setItems (map (\<lambda>it. if itemName it = n then patch it else it))"

text \<open>\<^verbatim>\<open>error instanceof Error ? error.message : "Failed"\<close>.\<close>

definition errorMessage :: "js_error \<Rightarrow> string" where
  "errorMessage e =
     (case e of
        JsError m \<Rightarrow> m
      | RangeError \<Rightarrow> ''Offset is outside the bounds of the DataView''
      | NonError \<Rightarrow> ''Failed'')"

section \<open>loadImageFromFile\<close>

text \<open>What \<^verbatim>\<open>loadImageFromFile\<close> returns; \<open>revokeUrl\<close> is the object URL its \<^verbatim>\<open>revoke\<close>
  closure revokes.\<close>

record loaded =
  img :: image
  width :: jsnum
  height :: jsnum
  revokeUrl :: nat

definition fileBlob :: "jsfile \<Rightarrow> blob" where
  "fileBlob file = \<lparr>bytes = content file, mime = type file\<rparr>"

text \<open>Lines 150-167: the image is loaded from the blob behind \<open>objectUrl\<close>.\<close>

definition awaitImage ::
  "env \<Rightarrow> blob \<Rightarrow> jsnum \<times> jsnum \<Rightarrow> nat \<Rightarrow> state \<Rightarrow> (js_error + loaded) \<times> state" where
  "awaitImage e source svgSize objectUrl st =
     (case imageLoad e source of
        None \<Rightarrow> (Inl (JsError ''Image load failed''), st)
      | Some (nw, nh) \<Rightarrow>
          (Inr \<lparr>img = \<lparr>src = source, naturalWidth = nw, naturalHeight = nh\<rparr>,
                width = orElse (orElse (fst svgSize) (Num (of_nat nw))) DEFAULT_SVG_SIZE,
                height = orElse (orElse (snd svgSize) (Num (of_nat nh))) DEFAULT_SVG_SIZE,
                revokeUrl = objectUrl\<rparr>, st))"

definition isSvgFile :: "jsfile \<Rightarrow> bool" where
  "isSvgFile file =
     (type file = ''image/svg+xml'' \<or> endsWith (toLowerCase (name file)) ''.svg'')"

definition loadImageFromFile :: "env \<Rightarrow> jsfile \<Rightarrow> state \<Rightarrow> (js_error + loaded) \<times> state" where
  "loadImageFromFile e file st =
     (let isSvg = isSvgFile file;
          svgSize = (Num 0, Num 0);
          (objectUrl, st1) = createObjectURL st
      in if isSvg
         then (case readText e file of
                 Inl err \<Rightarrow> (Inl err, st1)
               | Inr svgText \<Rightarrow>
                   (let svgSize = parseSvgSize (parseFromString e) svgText;
                        svgBlob = \<lparr>bytes = encodeText e svgText, mime = ''image/svg+xml''\<rparr>;
                        (objectUrl, st2) = createObjectURL st1
                    in awaitImage e svgBlob svgSize objectUrl st2))
         else awaitImage e (fileBlob file) svgSize objectUrl st1)"

section \<open>convertAll\<close>

definition canvasToBlob :: "env \<Rightarrow> canvas \<Rightarrow> string \<Rightarrow> jsnum option \<Rightarrow> js_error + blob" where
  "canvasToBlob e c t q =
     (case toBlob e c t q of
        Some b \<Rightarrow> Inr b
      | None \<Rightarrow> Inl (JsError ''Canvas export failed''))"

definition zipName :: "mode \<Rightarrow> string" where
  "zipName m = (if m = Webp then ''webp-conversions.zip'' else ''ico-icons.zip'')"

text \<open>Lines 251-255 and 264-268: a single file is downloaded, any other goes into the
  archive.\<close>

definition deliver ::
  "bool \<Rightarrow> string \<Rightarrow> blob \<Rightarrow> state \<times> (string \<times> blob) list \<Rightarrow> state \<times> (string \<times> blob) list" where
  "deliver isSingle filename b sz =
     (if isSingle then (downloadBlob b filename (fst sz), snd sz)
      else (fst sz, zipFile (snd sz) filename b))"

text \<open>
  Lines 236-269, the rest of the \<^verbatim>\<open>try\<close> block once the image is loaded. The result is
  the error thrown, or the name and the blob of the artifact that was delivered.
\<close>

definition convertLoaded ::
  "env \<Rightarrow> mode \<Rightarrow> bool \<Rightarrow> jsnum \<Rightarrow> nat \<Rightarrow> jsfile \<Rightarrow> loaded \<Rightarrow> state \<times> (string \<times> blob) list
     \<Rightarrow> (js_error + string \<times> blob) \<times> state \<times> (string \<times> blob) list" where
  "convertLoaded e m isSingle q isz file ld sz =
     (if \<not> getContext e then (Inl (JsError ''Canvas unavailable''), sz)
      else
        (let baseName = getBaseName (name file)
         in if m = Webp
            then
              (let c = \<lparr>canvasWidth = width ld, canvasHeight = height ld,
                        drawn = (img ld, width ld, height ld)\<rparr>
               in case canvasToBlob e c ''image/webp'' (Some q) of
                    Inl err \<Rightarrow> (Inl err, sz)
                  | Inr webpBlob \<Rightarrow>
                      (Inr (baseName @ ''.webp'', webpBlob),
                       deliver isSingle (baseName @ ''.webp'') webpBlob sz))
            else
              (let c = \<lparr>canvasWidth = Num (of_nat isz), canvasHeight = Num (of_nat isz),
                        drawn = (img ld, Num (of_nat isz), Num (of_nat isz))\<rparr>
               in case canvasToBlob e c ''image/png'' None of
                    Inl err \<Rightarrow> (Inl err, sz)
                  | Inr pngBlob \<Rightarrow>
                      (case buildIcoBlob (bytes pngBlob) isz of
                         Inl err \<Rightarrow> (Inl err, sz)
                       | Inr icoBlob \<Rightarrow>
                           (Inr (baseName @ ''.ico'', icoBlob),
                            deliver isSingle (baseName @ ''.ico'') icoBlob sz)))))"

text \<open>
  Lines 231-277, one iteration of the loop: the item is set to working, the \<^verbatim>\<open>try\<close> block
  runs, the item is set to done or (\<^verbatim>\<open>catch\<close>) to error, and (\<^verbatim>\<open>finally\<close>) \<^verbatim>\<open>revoke\<close>
  runs, which is still the empty function when \<^verbatim>\<open>loadImageFromFile\<close> threw.
\<close>

definition processFile ::
  "env \<Rightarrow> mode \<Rightarrow> bool \<Rightarrow> jsnum \<Rightarrow> nat \<Rightarrow> jsfile \<Rightarrow> state \<times> (string \<times> blob) list
     \<Rightarrow> (js_error + string \<times> blob) \<times> state \<times> (string \<times> blob) list" where
  "processFile e m isSingle q isz file sz =
     (let st1 = updateItem (name file) workingPatch (fst sz);
          (r, st2) = loadImageFromFile e file st1
      in case r of
           Inl err \<Rightarrow>
             (Inl err, updateItem (name file) (errorPatch (errorMessage err)) st2, snd sz)
         | Inr ld \<Rightarrow>
             (let (r', st3, entries) = convertLoaded e m isSingle q isz file ld (st2, snd sz);
                  st4 = (case r' of
                           Inl err \<Rightarrow> updateItem (name file) (errorPatch (errorMessage err)) st3
                         | Inr a \<Rightarrow> updateItem (name file) donePatch st3)
              in (r', revokeObjectURL (revokeUrl ld) st4, entries)))"

text \<open>The \<^verbatim>\<open>for\<close> loop over \<open>files\<close>; the results of the iterations are collected in order.\<close>

fun convertLoop ::
  "env \<Rightarrow> mode \<Rightarrow> bool \<Rightarrow> jsnum \<Rightarrow> nat \<Rightarrow> jsfile list \<Rightarrow> state \<times> (string \<times> blob) list
     \<Rightarrow> (js_error + string \<times> blob) list \<times> state \<times> (string \<times> blob) list" where
  "convertLoop e m isSingle q isz [] sz = ([], sz)"
| "convertLoop e m isSingle q isz (file # rest) sz =
     (let (r, sz1) = processFile e m isSingle q isz file sz;
          (rs, sz2) = convertLoop e m isSingle q isz rest sz1
      in (r # rs, sz2))"

text \<open>
  The result of one call of \<^verbatim>\<open>convertAll\<close>: the result of each iteration, the state
  afterwards, the entries handed to \<^verbatim>\<open>generateAsync\<close> (\<open>None\<close> when no archive was
  built), and the rejection of the call, if \<^verbatim>\<open>generateAsync\<close> failed.
\<close>

record run =
  outcomes :: "(js_error + string \<times> blob) list"
  final :: state
  archive :: "(string \<times> blob) list option"
  rejected :: "js_error option"

definition convertAll :: "env \<Rightarrow> mode \<Rightarrow> state \<Rightarrow> run" where
  "convertAll e m st =
     (if files st = [] \<or> busy st
      then \<lparr>outcomes = [], final = st, archive = None, rejected = None\<rparr>
      else
        (let st0 = st\<lparr>busy := True\<rparr>;
             isSingle = (length (files st) = 1);
             (rs, st1, entries) = convertLoop e m isSingle (quality st) (iconSize st) (files st) (st0, [])
         in if length (files st) > 1
            then (case generateAsync e entries of
                    Inl err \<Rightarrow>
                      \<lparr>outcomes = rs, final = st1\<lparr>busy := False\<rparr>, archive = Some entries,
                       rejected = Some err\<rparr>
                  | Inr zipBlob \<Rightarrow>
                      \<lparr>outcomes = rs, final = (downloadBlob zipBlob (zipName m) st1)\<lparr>busy := False\<rparr>,
                       archive = Some entries, rejected = None\<rparr>)
            else \<lparr>outcomes = rs, final = st1\<lparr>busy := False\<rparr>, archive = None,
                  rejected = None\<rparr>))"

section \<open>What the user can do during a run\<close>

text \<open>
  \<^verbatim>\<open>convertAll\<close> waits at every \<^verbatim>\<open>await\<close>, and the page stays live meanwhile. The two
  conversion buttons are disabled while \<open>busy\<close> (lines 412 and 420). The file input and
  the drop zone (both call \<^verbatim>\<open>handleFiles\<close>), the Clear button (\<^verbatim>\<open>clearAll\<close>, disabled
  only while there are no files), the quality slider and the size buttons are not.
\<close>

datatype action = SelectFiles "jsfile list" | ClearAll | SetQuality jsnum | SetIconSize nat

text \<open>\<^verbatim>\<open>clearAll\<close>, page.tsx lines 291-297.\<close>

definition clearAll :: "state \<Rightarrow> state" where
  "clearAll st = setItems (\<lambda>prev. []) (st\<lparr>files := []\<rparr>)"

definition perform :: "action \<Rightarrow> state \<Rightarrow> state" where
  "perform a st =
     (case a of
        SelectFiles incoming \<Rightarrow> handleFiles incoming st
      | ClearAll \<Rightarrow> if files st = [] then st else clearAll st
      | SetQuality q \<Rightarrow> st\<lparr>quality := q\<rparr>
      | SetIconSize n \<Rightarrow> st\<lparr>iconSize := n\<rparr>)"

definition performAll :: "action list \<Rightarrow> state \<Rightarrow> state" where
  "performAll acts st = foldl (\<lambda>s a. perform a s) st acts"

text \<open>
  One iteration of the loop, lines 231-277, with the actions the user performs while it
  waits. The iteration changes \<open>items\<close> in its first and in its last step only, and it
  reads nothing that an action writes: \<open>files\<close>, \<open>quality\<close> and \<open>iconSize\<close> are, in
  \<^verbatim>\<open>convertAll\<close>, the values of the render in which it was called. So it makes no
  difference at which \<^verbatim>\<open>await\<close> of the iteration an action happens; the model performs
  them while the image loads.
\<close>

definition processFileDuring ::
  "env \<Rightarrow> mode \<Rightarrow> bool \<Rightarrow> jsnum \<Rightarrow> nat \<Rightarrow> action list \<Rightarrow> jsfile \<Rightarrow> state \<times> (string \<times> blob) list
     \<Rightarrow> (js_error + string \<times> blob) \<times> state \<times> (string \<times> blob) list" where
  "processFileDuring e m isSingle q isz acts file sz =
     (let st1 = updateItem (name file) workingPatch (fst sz);
          (r, st2) = loadImageFromFile e file st1;
          st2' = performAll acts st2
      in case r of
           Inl err \<Rightarrow>
             (Inl err, updateItem (name file) (errorPatch (errorMessage err)) st2', snd sz)
         | Inr ld \<Rightarrow>
             (let (r', st3, entries) = convertLoaded e m isSingle q isz file ld (st2', snd sz);
                  st4 = (case r' of
                           Inl err \<Rightarrow> updateItem (name file) (errorPatch (errorMessage err)) st3
                         | Inr a \<Rightarrow> updateItem (name file) donePatch st3)
              in (r', revokeObjectURL (revokeUrl ld) st4, entries)))"

text \<open>The loop; \<open>acts\<close> holds the actions during the first iteration, during the second,
  and so on (none where the list is too short).\<close>

fun convertLoopDuring ::
  "env \<Rightarrow> mode \<Rightarrow> bool \<Rightarrow> jsnum \<Rightarrow> nat \<Rightarrow> action list list \<Rightarrow> jsfile list
     \<Rightarrow> state \<times> (string \<times> blob) list
     \<Rightarrow> (js_error + string \<times> blob) list \<times> state \<times> (string \<times> blob) list" where
  "convertLoopDuring e m isSingle q isz acts [] sz = ([], sz)"
| "convertLoopDuring e m isSingle q isz acts (file # rest) sz =
     (let (r, sz1) = processFileDuring e m isSingle q isz (case acts of [] \<Rightarrow> [] | a # as \<Rightarrow> a)
                       file sz;
          (rs, sz2) = convertLoopDuring e m isSingle q isz (tl acts) rest sz1
      in (r # rs, sz2))"

text \<open>\<^verbatim>\<open>convertAll\<close>, lines 219-289, with the actions during its iterations and the
  actions while the archive is written.\<close>

definition convertAllDuring :: "env \<Rightarrow> mode \<Rightarrow> action list list \<Rightarrow> action list \<Rightarrow> state \<Rightarrow> run" where
  "convertAllDuring e m acts zipActs st =
     (if files st = [] \<or> busy st
      then \<lparr>outcomes = [], final = st, archive = None, rejected = None\<rparr>
      else
        (let st0 = st\<lparr>busy := True\<rparr>;
             isSingle = (length (files st) = 1);
             (rs, st1, entries) =
               convertLoopDuring e m isSingle (quality st) (iconSize st) acts (files st) (st0, [])
         in if length (files st) > 1
            then (let st2 = performAll zipActs st1
                  in case generateAsync e entries of
                       Inl err \<Rightarrow>
                         \<lparr>outcomes = rs, final = st2\<lparr>busy := False\<rparr>, archive = Some entries,
                          rejected = Some err\<rparr>
                     | Inr zipBlob \<Rightarrow>
                         \<lparr>outcomes = rs,
                          final = (downloadBlob zipBlob (zipName m) st2)\<lparr>busy := False\<rparr>,
                          archive = Some entries, rejected = None\<rparr>)
            else \<lparr>outcomes = rs, final = st1\<lparr>busy := False\<rparr>, archive = None,
                  rejected = None\<rparr>))"

text \<open>The state of the page when it is first rendered.\<close>

definition initialState :: state where
  "initialState =
     \<lparr>files = [], items = [], busy = False, quality = toNumber (41 / 50), iconSize = 256,
      liveUrls = [], urlCount = 0, downloads = [], history = []\<rparr>"

section \<open>Notions used in the statements\<close>

text \<open>
  The spec's validator, from its words: a file is accepted when its declared type is one
  of the four image types, or its filename's lowercase extension is one of \<open>png\<close>,
  \<open>jpg\<close>, \<open>jpeg\<close>, \<open>svg\<close>. The extension of a filename is the text after its last
  dot; a filename without a dot has none.
\<close>

definition acceptedExtensions :: "string list" where
  "acceptedExtensions = [''png'', ''jpg'', ''jpeg'', ''svg'']"

definition spec_extension :: "string \<Rightarrow> string option" where
  "spec_extension n =
     (if CHR ''.'' \<in> set n
      then Some (rev (takeWhile (\<lambda>c. c \<noteq> CHR ''.'') (rev (toLowerCase n))))
      else None)"

definition spec_accepts :: "jsfile \<Rightarrow> bool" where
  "spec_accepts file =
     (type file \<in> set ACCEPTED_TYPES
      \<or> (case spec_extension (name file) of
            None \<Rightarrow> False
          | Some x \<Rightarrow> x \<in> set acceptedExtensions))"

text \<open>
  An attribute is numeric for \<^verbatim>\<open>parseSvgSize\<close> when \<^verbatim>\<open>parseFloat\<close> reads a finite number
  from it. The components of a \<open>viewBox\<close>, as the code takes them, are the pieces between
  its runs of white space.
\<close>

definition numericAttribute :: "element \<Rightarrow> string \<Rightarrow> bool" where
  "numericAttribute el n = isFinite (parseFloat (attributeOrEmpty el n))"

definition viewBoxParts :: "string \<Rightarrow> jsnum list" where
  "viewBoxParts v = map parseFloat (splitWhitespace v)"

text \<open>The first that is not zero of: the size read from the markup, the natural size of
  the decoded image, 256.\<close>

definition firstNonZero :: "jsnum \<Rightarrow> nat \<Rightarrow> jsnum" where
  "firstNonZero declared natural =
     (if declared \<noteq> Num 0 then declared
      else if natural \<noteq> 0 then Num (of_nat natural) else Num 256)"

text \<open>The base name of a filename, from the spec's words: the filename without its last
  dot and what follows it; the whole filename when it has no dot.\<close>

definition stem :: "string \<Rightarrow> string" where
  "stem n =
     (if CHR ''.'' \<in> set n then rev (tl (dropWhile (\<lambda>c. c \<noteq> CHR ''.'') (rev n))) else n)"

text \<open>The artifacts of the iterations that succeeded, in order.\<close>

fun successes :: "('e + 'a) list \<Rightarrow> 'a list" where
  "successes [] = []"
| "successes (Inl e # rs) = successes rs"
| "successes (Inr a # rs) = a # successes rs"

definition artifactName :: "mode \<Rightarrow> jsfile \<Rightarrow> string" where
  "artifactName m file = getBaseName (name file) @ (if m = Webp then ''.webp'' else ''.ico'')"

definition addEntry :: "(string \<times> blob) list \<Rightarrow> string \<times> blob \<Rightarrow> (string \<times> blob) list" where
  "addEntry entries a = zipFile entries (fst a) (snd a)"

text \<open>
  The transitions of the spec's state machine, and the transitions by which an item that
  was finished earlier is worked on again. One step of the item list: the same items by
  name, each keeping its status or making one of the given transitions. The trace of a
  run is the sequence of values \<open>items\<close> took from the call on.
\<close>

definition allowedStep :: "status \<Rightarrow> status \<Rightarrow> bool" where
  "allowedStep a b =
     (a = b \<or> (a = Ready \<and> b = Working) \<or> (a = Working \<and> b = Done)
      \<or> (a = Working \<and> b = Error))"

definition restartStep :: "status \<Rightarrow> status \<Rightarrow> bool" where
  "restartStep a b = (allowedStep a b \<or> (a = Done \<and> b = Working) \<or> (a = Error \<and> b = Working))"

definition itemsStep :: "(status \<Rightarrow> status \<Rightarrow> bool) \<Rightarrow> item list \<Rightarrow> item list \<Rightarrow> bool" where
  "itemsStep step old new =
     list_all2 (\<lambda>a b. itemName b = itemName a \<and> step (status a) (status b)) old new"

definition runTrace :: "state \<Rightarrow> run \<Rightarrow> item list list" where
  "runTrace st r = drop (length (history st)) (itemsTrace (final r))"

text \<open>The actions that replace the item list.\<close>

definition replacesItems :: "action \<Rightarrow> bool" where
  "replacesItems a = (case a of SelectFiles incoming \<Rightarrow> True | ClearAll \<Rightarrow> True | _ \<Rightarrow> False)"

definition patchNamed :: "string \<Rightarrow> (item \<Rightarrow> item) \<Rightarrow> item \<Rightarrow> item" where
  "patchNamed n p it = (if itemName it = n then p it else it)"

definition finishPatch :: "(js_error + string \<times> blob) \<Rightarrow> item \<Rightarrow> item" where
  "finishPatch r = (case r of Inl err \<Rightarrow> errorPatch (errorMessage err) | Inr a \<Rightarrow> donePatch)"

text \<open>The item \<open>handleFiles\<close> makes for a file, and the item of a file whose iteration is
  over with the given result.\<close>

definition readyItem :: "jsfile \<Rightarrow> item" where
  "readyItem file = \<lparr>itemName = name file, status = Ready, detail = None\<rparr>"

definition settledItem :: "jsfile \<Rightarrow> (js_error + string \<times> blob) \<Rightarrow> item" where
  "settledItem file r =
     (case r of
        Inl err \<Rightarrow> \<lparr>itemName = name file, status = Error, detail = Some (errorMessage err)\<rparr>
      | Inr a \<Rightarrow> \<lparr>itemName = name file, status = Done, detail = None\<rparr>)"

section \<open>An example browser and example files\<close>

text \<open>
  The concrete inputs of the examples below. The example parser knows the markup of a
  few self-closing \<open>svg\<close> elements, which it answers with that element and its
  attributes, and answers every other text with a document that holds a \<open>parsererror\<close>
  element and no \<open>svg\<close> element. The example decoder fails on an empty file and
  reports 300 by 150 for any other. The example encoder returns the bytes of the drawn
  image behind one byte telling whether a quality was passed. The example archive writer
  concatenates its entries. Text is read and written one byte per character.
\<close>

definition quoted :: "string \<Rightarrow> string" where
  "quoted s = CHR 0x22 # s @ [CHR 0x22]"

definition svgMarkup :: "(string \<times> string) list \<Rightarrow> string" where
  "svgMarkup as =
     ''<svg xmlns='' @ quoted ''http://www.w3.org/2000/svg''
       @ concat (map (\<lambda>(k, v). '' '' @ k @ ''='' @ quoted v) as) @ ''/>''"

definition exampleAttributes :: "(string \<times> string) list list" where
  "exampleAttributes =
     [[(''width'', ''48''), (''height'', ''48'')],
      [(''viewBox'', ''0 0 64 64'')],
      [],
      [(''viewBox'', ''0,0,64,64'')],
      [(''viewBox'', ''0, 0, 64, 64'')],
      [(''width'', ''100%''), (''height'', ''100%''), (''viewBox'', ''0 0 64 32'')],
      [(''width'', ''48.5''), (''height'', ''48.5'')]]"

definition exampleParser :: "string \<Rightarrow> js_error + element" where
  "exampleParser t =
     (case find (\<lambda>as. svgMarkup as = t) exampleAttributes of
        Some as \<Rightarrow> Inr (Element ''svg'' ((''xmlns'', ''http://www.w3.org/2000/svg'') # as) [])
      | None \<Rightarrow> Inr (Element ''parsererror'' [] []))"

definition exampleEnv :: env where
  "exampleEnv =
     \<lparr>readText = (\<lambda>file. Inr (map (\<lambda>b. char_of (unat b)) (content file))),
      encodeText = map (\<lambda>c. of_nat (of_char c)),
      parseFromString = exampleParser,
      imageLoad = (\<lambda>b. if bytes b = [] then None else Some (300, 150)),
      getContext = True,
      toBlob = (\<lambda>c t q. Some \<lparr>bytes = (case q of None \<Rightarrow> 0 | Some x \<Rightarrow> 1)
                                        # bytes (src (fst (drawn c))), mime = t\<rparr>),
      generateAsync = (\<lambda>entries. Inr \<lparr>bytes = concat (map (\<lambda>a. bytes (snd a)) entries),
                                       mime = ''application/zip''\<rparr>)\<rparr>"

definition logoPng :: jsfile where
  "logoPng = \<lparr>name = ''logo.png'', type = ''image/png'', content = [137, 80, 78, 71]\<rparr>"

definition logoJpg :: jsfile where
  "logoJpg = \<lparr>name = ''logo.jpg'', type = ''image/jpeg'', content = [255, 216, 255]\<rparr>"

definition brokenPng :: jsfile where
  "brokenPng = \<lparr>name = ''broken.png'', type = ''image/png'', content = []\<rparr>"

definition emptyPng :: jsfile where
  "emptyPng = \<lparr>name = ''empty.png'', type = ''image/png'', content = []\<rparr>"

definition iconSvg :: jsfile where
  "iconSvg =
     \<lparr>name = ''icon.svg'', type = ''image/svg+xml'',
      content = map (\<lambda>c. of_nat (of_char c))
                  (svgMarkup [(''width'', ''48.5''), (''height'', ''48.5'')])\<rparr>"

definition dotlessFile :: jsfile where
  "dotlessFile = \<lparr>name = ''png'', type = [], content = [137, 80, 78, 71]\<rparr>"

definition photoPng :: jsfile where
  "photoPng = \<lparr>name = ''photo.png'', type = ''image/png'', content = [137, 80, 78, 71]\<rparr>"

definition photoJpg :: jsfile where
  "photoJpg = \<lparr>name = ''photo.jpg'', type = ''image/jpeg'', content = [255, 216, 255]\<rparr>"

definition notesTxt :: jsfile where
  "notesTxt = \<lparr>name = ''notes.txt'', type = ''text/plain'', content = [104, 105]\<rparr>"

section \<open>Properties of the icon container\<close>

lemma bind_Inr [simp]: "bind (Inr x) f = f x"
  by (simp add: bind_def)

lemma bind_Inl [simp]: "bind (Inl e) f = Inl e"
  by (simp add: bind_def)

lemma newArrayBuffer_header:
  "newArrayBuffer (22 + n) =
     [0,0,0,0,0,0,0,0,0,0,0,0,0,0,0,0,0,0,0,0,0,0] @ replicate n 0"
  by (simp add: newArrayBuffer_def eval_nat_numeral)

text \<open>The builder never throws, and its output is this explicit byte sequence.\<close>

lemma buildIcoBlob_bytes:
  "buildIcoBlob png sz =
     Inr \<lparr>bytes =
        [0, 0, 1, 0, 1, 0,
         of_nat (if sz \<ge> 256 then 0 else sz), of_nat (if sz \<ge> 256 then 0 else sz), 0, 0,
         1, 0, 32, 0,
         of_nat (length png), of_nat (length png div 256),
         of_nat (length png div 65536), of_nat (length png div 16777216),
         22, 0, 0, 0] @ png,
       mime = ''image/x-icon''\<rparr>"
proof -
  have h: "(6::nat) + 16 = 22" by simp
  show ?thesis
    unfolding buildIcoBlob_def Let_def h newArrayBuffer_header
    by (simp add: setUint16_def setUint8_def setUint32_def setBytes_def)
qed

lemma le32_nat:
  "n mod 256 + 256 * (n div 256 mod 256) + 65536 * (n div 65536 mod 256)
     + 16777216 * (n div 16777216 mod 256) = n mod 4294967296" for n :: nat
proof -
  have a: "n mod 65536 = n mod 256 + 256 * (n div 256 mod 256)"
    using mod_mult2_eq [of n 256 256] by simp
  have b: "n div 65536 mod 65536 = n div 65536 mod 256 + 256 * (n div 65536 div 256 mod 256)"
    using mod_mult2_eq [of "n div 65536" 256 256] by simp
  have c: "n div 65536 div 256 = n div 16777216"
    by (simp add: div_mult2_eq [symmetric])
  have d: "n mod 4294967296 = n mod 65536 + 65536 * (n div 65536 mod 65536)"
    using mod_mult2_eq [of n 65536 65536] by simp
  show ?thesis unfolding d a b c by simp
qed

text \<open>
  Claim C1. For every PNG buffer \<open>png\<close> of length \<open>L\<close> and every size in
  \<open>{32, 64, 128, 256}\<close>, \<open>buildIcoBlob\<close> returns (it does not throw) a buffer of length
  \<open>22 + L\<close> that reads: u16 0 at offset 0, u16 1 at 2, u16 1 at 4, the byte
  (0 if the size is 256, else the size) at 6 and at 7, byte 0 at 8 and at 9, u16 1 at 10,
  u16 32 at 12, the u32 \<open>L\<close> at 14, the u32 22 at 18, and the PNG bytes verbatim from
  offset 22. The u32 field holds \<open>L\<close> as a 32-bit unsigned integer, which is \<open>L\<close> itself
  for every buffer shorter than \<open>2 ^ 32\<close> bytes.
\<close>

theorem buildIcoBlob_layout:
  assumes "sz \<in> {32, 64, 128, 256}"
  shows "\<exists>out. buildIcoBlob png sz = Inr \<lparr>bytes = out, mime = ''image/x-icon''\<rparr>
    \<and> length out = 22 + length png
    \<and> getUint16 out 0 = 0 \<and> getUint16 out 2 = 1 \<and> getUint16 out 4 = 1
    \<and> getUint8 out 6 = (if sz = 256 then 0 else sz)
    \<and> getUint8 out 7 = (if sz = 256 then 0 else sz)
    \<and> getUint8 out 8 = 0 \<and> getUint8 out 9 = 0
    \<and> getUint16 out 10 = 1 \<and> getUint16 out 12 = 32
    \<and> getUint32 out 14 = unat (of_nat (length png) :: 32 word)
    \<and> (length png < 2 ^ 32 \<longrightarrow> getUint32 out 14 = length png)
    \<and> getUint32 out 18 = 22
    \<and> drop 22 out = png"
proof -
  define w :: byte where "w = of_nat (if sz \<ge> 256 then 0 else sz)"
  let ?hd = "[0, 0, 1, 0, 1, 0, w, w, 0, 0, 1, 0, 32, 0] :: byte list"
  let ?len = "[of_nat (length png), of_nat (length png div 256),
         of_nat (length png div 65536), of_nat (length png div 16777216)] :: byte list"
  let ?out = "?hd @ ?len @ ([22, 0, 0, 0] @ png)"
  have w: "unat w = (if sz = 256 then 0 else sz)"
    using assms by (auto simp add: w_def)
  have run: "buildIcoBlob png sz = Inr \<lparr>bytes = ?out, mime = ''image/x-icon''\<rparr>"
    by (simp only: buildIcoBlob_bytes w_def) simp
  have len: "length ?out = 22 + length png"
    by simp
  have u16: "getUint16 ?out 0 = 0" "getUint16 ?out 2 = 1" "getUint16 ?out 4 = 1"
    "getUint16 ?out 10 = 1" "getUint16 ?out 12 = 32"
    by (simp_all add: getUint16_def)
  have u8: "getUint8 ?out 6 = (if sz = 256 then 0 else sz)"
    "getUint8 ?out 7 = (if sz = 256 then 0 else sz)"
    "getUint8 ?out 8 = 0" "getUint8 ?out 9 = 0"
    using w by (simp_all add: getUint8_def)
  have u32: "getUint32 ?out 14 = length png mod 2 ^ 32"
    by (simp add: getUint32_def unat_of_nat le32_nat)
  have off: "getUint32 ?out 18 = 22"
    by (simp add: getUint32_def)
  have data: "drop 22 ?out = png"
    by simp
  show ?thesis
    apply (rule exI [of _ ?out])
    apply (simp only: run len u16 u8 u32 off data unat_of_nat)
    apply simp
    done
qed

theorem buildIcoBlob_layout_witness:
  "\<exists>out. buildIcoBlob [137, 80, 78, 71] 32 = Inr \<lparr>bytes = out, mime = ''image/x-icon''\<rparr>
    \<and> length out = 26 \<and> getUint8 out 6 = 32 \<and> getUint8 out 7 = 32
    \<and> getUint32 out 14 = 4 \<and> getUint32 out 18 = 22 \<and> drop 22 out = [137, 80, 78, 71]"
  using buildIcoBlob_layout [of 32 "[137, 80, 78, 71]"] by auto

section \<open>The validator\<close>

lemma splitOn_not_Nil [simp]: "splitOn sep s \<noteq> []"
  by (induction s) (auto split: list.splits)

lemma splitOn_single: "sep \<notin> set s \<Longrightarrow> splitOn sep s = [s]"
  by (induction s) auto

lemma length_splitOn: "length (splitOn sep s) = Suc (length (filter (\<lambda>c. c = sep) s))"
  by (induction s) (auto split: list.splits)

lemma last_splitOn: "last (splitOn sep s) = rev (takeWhile (\<lambda>c. c \<noteq> sep) (rev s))"
proof (induction s)
  case Nil
  show ?case by simp
next
  case (Cons c s)
  show ?case
  proof (cases "c = sep")
    case True
    then show ?thesis
      using Cons.IH by (simp add: takeWhile_append)
  next
    case False
    obtain p ps where sp: "splitOn sep s = p # ps"
      by (cases "splitOn sep s") simp_all
    show ?thesis
    proof (cases "sep \<in> set s")
      case True
      then have "filter (\<lambda>c. c = sep) s \<noteq> []"
        by (simp add: filter_empty_conv)
      then have "ps \<noteq> []"
        using length_splitOn [of sep s] sp by auto
      with False sp Cons.IH True show ?thesis
        by (auto simp add: takeWhile_append)
    next
      case nosep: False
      with False show ?thesis
        by (simp add: splitOn_single takeWhile_append takeWhile_eq_all_conv[THEN iffD2])
    qed
  qed
qed

lemma of_char_toLowerCaseChar:
  "(of_char (toLowerCaseChar c) :: nat) =
     (if (65 \<le> (of_char c :: nat) \<and> (of_char c :: nat) \<le> 90)
         \<or> (192 \<le> (of_char c :: nat) \<and> (of_char c :: nat) \<le> 222 \<and> (of_char c :: nat) \<noteq> 215)
      then of_char c + 32 else of_char c)"
proof (cases "(65 \<le> (of_char c :: nat) \<and> (of_char c :: nat) \<le> 90)
         \<or> (192 \<le> (of_char c :: nat) \<and> (of_char c :: nat) \<le> 222 \<and> (of_char c :: nat) \<noteq> 215)")
  case True
  then have "(of_char c + 32 :: nat) mod 256 = of_char c + 32"
    by auto
  then have "of_char (char_of (of_char c + 32 :: nat)) = (of_char c + 32 :: nat)"
    by (simp only: of_char_of)
  with True show ?thesis
    by (simp add: toLowerCaseChar_def Let_def)
next
  case False
  then show ?thesis
    by (auto simp add: toLowerCaseChar_def Let_def)
qed

lemma toLowerCaseChar_dot: "(toLowerCaseChar c = CHR ''.'') = (c = CHR ''.'')"
proof -
  have "(toLowerCaseChar c = CHR ''.'') = ((of_char (toLowerCaseChar c) :: nat) = of_char (CHR ''.''))"
    by (simp only: of_char_eq_iff)
  also have "\<dots> = ((of_char c :: nat) = of_char (CHR ''.''))"
    unfolding of_char_toLowerCaseChar by auto
  also have "\<dots> = (c = CHR ''.'')"
    by (simp only: of_char_eq_iff)
  finally show ?thesis .
qed

lemma toLowerCase_dot: "(CHR ''.'' \<in> set (toLowerCase n)) = (CHR ''.'' \<in> set n)"
proof -
  have "(CHR ''.'' \<in> set (toLowerCase n)) = (\<exists>c \<in> set n. toLowerCaseChar c = CHR ''.'')"
    unfolding toLowerCase_def by (simp only: set_map image_iff) (rule bex_cong, rule refl, rule eq_commute)
  also have "\<dots> = (\<exists>c \<in> set n. c = CHR ''.'')"
    by (simp only: toLowerCaseChar_dot)
  also have "\<dots> = (CHR ''.'' \<in> set n)"
    by blast
  finally show ?thesis .
qed

lemma isAcceptedFile_iff:
  "isAcceptedFile file =
     (type file \<in> set ACCEPTED_TYPES
      \<or> rev (takeWhile (\<lambda>c. c \<noteq> CHR ''.'') (rev (toLowerCase (name file)))) \<in> set acceptedExtensions)"
  by (simp add: isAcceptedFile_def popOrEmpty_def last_splitOn acceptedExtensions_def Let_def del: set_simps)

lemma isAcceptedFile_spec:
  "isAcceptedFile file =
     (spec_accepts file
      \<or> (CHR ''.'' \<notin> set (name file) \<and> toLowerCase (name file) \<in> set acceptedExtensions))"
proof (cases "CHR ''.'' \<in> set (name file)")
  case True
  then show ?thesis
    by (simp add: isAcceptedFile_iff spec_accepts_def spec_extension_def)
next
  case False
  then have "CHR ''.'' \<notin> set (rev (toLowerCase (name file)))"
    by (simp add: toLowerCase_dot)
  then have "takeWhile (\<lambda>c. c \<noteq> CHR ''.'') (rev (toLowerCase (name file))) = rev (toLowerCase (name file))"
    by (auto simp add: takeWhile_eq_all_conv)
  then have tw: "rev (takeWhile (\<lambda>c. c \<noteq> CHR ''.'') (rev (toLowerCase (name file)))) = toLowerCase (name file)"
    by (simp only: rev_rev_ident)
  show ?thesis
    unfolding isAcceptedFile_iff tw
    using False by (simp add: spec_accepts_def spec_extension_def)
qed

lemma handleFiles_filters:
  "files (handleFiles incoming st) = filter isAcceptedFile incoming
   \<and> items (handleFiles incoming st)
       = map (\<lambda>file. \<lparr>itemName = name file, status = Ready, detail = None\<rparr>)
           (filter isAcceptedFile incoming)"
  by (simp add: handleFiles_def syncItems_def setItems_def Let_def)

text \<open>
  How the validator relates to the spec's. It accepts a file exactly when the spec's
  validator does (declared type one of the four image types, or lowercase extension one
  of \<open>png\<close>, \<open>jpg\<close>, \<open>jpeg\<close>, \<open>svg\<close>), or when the filename has no dot at all and,
  in lower case, is itself one of these four words. \<open>handleFiles\<close> keeps exactly the
  accepted files, in order, and creates one ready item for each of them and none for any
  other; it has no way to fail.
\<close>

lemma handleFiles_validates:
  "isAcceptedFile file =
     (spec_accepts file
      \<or> (CHR ''.'' \<notin> set (name file) \<and> toLowerCase (name file) \<in> set acceptedExtensions))
   \<and> files (handleFiles incoming st) = filter isAcceptedFile incoming
   \<and> items (handleFiles incoming st)
       = map (\<lambda>file. \<lparr>itemName = name file, status = Ready, detail = None\<rparr>)
           (filter isAcceptedFile incoming)"
  using isAcceptedFile_spec [of "file"] handleFiles_filters [of incoming st] by blast

text \<open>\<open>getBaseName\<close> gives the base name of the spec: \<^verbatim>\<open>split\<close>, \<^verbatim>\<open>pop\<close> and \<^verbatim>\<open>join\<close> remove
  the last dot and what follows it.\<close>

lemma join_splitOn: "join [sep] (splitOn sep s) = s"
proof (induction s)
  case Nil
  show ?case by simp
next
  case (Cons c s)
  obtain p ps where sp: "splitOn sep s = p # ps"
    by (cases "splitOn sep s") simp_all
  with Cons.IH show ?case
    by (cases ps) auto
qed

lemma join_snoc: "xs \<noteq> [] \<Longrightarrow> join sep (xs @ [y]) = join sep xs @ sep @ y"
  by (induction sep xs rule: join.induct) auto

lemma getBaseName_stem: "getBaseName n = stem n"
proof (cases "CHR ''.'' \<in> set n")
  case False
  then show ?thesis
    by (simp add: getBaseName_def stem_def splitOn_single)
next
  case True
  let ?parts = "splitOn (CHR ''.'') n"
  let ?b = "join ''.'' (butlast ?parts)"
  let ?l = "last ?parts"
  from True have "filter (\<lambda>c. c = CHR ''.'') n \<noteq> []"
    by (simp add: filter_empty_conv)
  then have len: "length ?parts \<ge> 2"
    by (cases "filter (\<lambda>c. c = CHR ''.'') n") (simp_all add: length_splitOn)
  then have bl: "butlast ?parts \<noteq> []"
    by (cases ?parts rule: rev_cases) auto
  have "n = join ''.'' (butlast ?parts @ [?l])"
    by (simp add: join_splitOn)
  then have n: "n = ?b @ ''.'' @ ?l"
    by (simp only: join_snoc [OF bl])
  have nodot: "\<forall>c \<in> set (rev ?l). c \<noteq> CHR ''.''"
    unfolding last_splitOn by (auto dest: set_takeWhileD)
  have "rev n = rev ?l @ CHR ''.'' # rev ?b"
    by (subst n) simp
  then have "dropWhile (\<lambda>c. c \<noteq> CHR ''.'') (rev n) = CHR ''.'' # rev ?b"
    using nodot by (simp add: dropWhile_append3 dropWhile_eq_Nil_conv del: rev_rev_ident)
  then have "stem n = ?b"
    using True by (simp add: stem_def)
  moreover from len have "getBaseName n = ?b"
    by (simp add: getBaseName_def Let_def)
  ultimately show ?thesis
    by simp
qed

section \<open>The size of an SVG and of a loaded image\<close>

text \<open>
  What \<open>parseSvgSize\<close> computes. When the parser throws, or the document has no \<open>svg\<close>
  element, the size is 256 by 256, and the sizing never fails. Otherwise the first
  \<open>svg\<close> element in document order decides, which is the root when the root is an
  \<open>svg\<close> element: its \<open>width\<close> and \<open>height\<close> when \<open>parseFloat\<close> reads a finite number
  from both (the leading decimal literal; what follows it, such as a unit, is ignored);
  else pieces 3 and 4 of its \<open>viewBox\<close> when that is not empty and splits at white space
  into exactly four pieces from each of which \<open>parseFloat\<close> reads a finite number; else
  256 by 256.
\<close>

lemma parseSvgSize_precedence:
  "(\<forall>err. parse text = Inl err \<longrightarrow> parseSvgSize parse text = (Num 256, Num 256))
   \<and> (\<forall>doc. parse text = Inr doc \<and> querySelector ''svg'' doc = None \<longrightarrow>
         parseSvgSize parse text = (Num 256, Num 256))
   \<and> (\<forall>n as cs. parse text = Inr (Element n as cs) \<and> localName n = ''svg'' \<longrightarrow>
         querySelector ''svg'' (Element n as cs) = Some (Element n as cs))
   \<and> (\<forall>doc svg. parse text = Inr doc \<and> querySelector ''svg'' doc = Some svg \<longrightarrow>
         (numericAttribute svg ''width'' \<and> numericAttribute svg ''height'' \<longrightarrow>
            parseSvgSize parse text
              = (parseFloat (attributeOrEmpty svg ''width''), parseFloat (attributeOrEmpty svg ''height'')))
         \<and> (\<not> (numericAttribute svg ''width'' \<and> numericAttribute svg ''height'') \<longrightarrow>
              (\<forall>v. getAttribute svg ''viewBox'' = Some v \<and> v \<noteq> []
                    \<and> length (viewBoxParts v) = 4 \<and> list_all isFinite (viewBoxParts v) \<longrightarrow>
                 parseSvgSize parse text = (viewBoxParts v ! 2, viewBoxParts v ! 3))
              \<and> (\<forall>v. getAttribute svg ''viewBox'' = Some v
                    \<and> \<not> (v \<noteq> [] \<and> length (viewBoxParts v) = 4 \<and> list_all isFinite (viewBoxParts v)) \<longrightarrow>
                 parseSvgSize parse text = (Num 256, Num 256))
              \<and> (getAttribute svg ''viewBox'' = None \<longrightarrow>
                 parseSvgSize parse text = (Num 256, Num 256))))"
proof (intro conjI allI impI)
  fix err assume "parse text = Inl err"
  then show "parseSvgSize parse text = (Num 256, Num 256)"
    by (simp add: parseSvgSize_def DEFAULT_SVG_SIZE_def)
next
  fix doc assume "parse text = Inr doc \<and> querySelector ''svg'' doc = None"
  then show "parseSvgSize parse text = (Num 256, Num 256)"
    by (simp add: parseSvgSize_def DEFAULT_SVG_SIZE_def)
next
  fix n as cs
  assume "parse text = Inr (Element n as cs) \<and> localName n = ''svg''"
  then show "querySelector ''svg'' (Element n as cs) = Some (Element n as cs)"
    by simp
next
  fix doc svg
  assume p: "parse text = Inr doc \<and> querySelector ''svg'' doc = Some svg"
    and n: "numericAttribute svg ''width'' \<and> numericAttribute svg ''height''"
  then show "parseSvgSize parse text
      = (parseFloat (attributeOrEmpty svg ''width''), parseFloat (attributeOrEmpty svg ''height''))"
    by (simp add: parseSvgSize_def numericAttribute_def Let_def)
next
  fix doc svg v
  assume p: "parse text = Inr doc \<and> querySelector ''svg'' doc = Some svg"
    and n: "\<not> (numericAttribute svg ''width'' \<and> numericAttribute svg ''height'')"
    and v: "getAttribute svg ''viewBox'' = Some v \<and> v \<noteq> []
          \<and> length (viewBoxParts v) = 4 \<and> list_all isFinite (viewBoxParts v)"
  then show "parseSvgSize parse text = (viewBoxParts v ! 2, viewBoxParts v ! 3)"
    by (auto simp add: parseSvgSize_def numericAttribute_def viewBoxParts_def Let_def)
next
  fix doc svg v
  assume p: "parse text = Inr doc \<and> querySelector ''svg'' doc = Some svg"
    and n: "\<not> (numericAttribute svg ''width'' \<and> numericAttribute svg ''height'')"
    and v: "getAttribute svg ''viewBox'' = Some v
          \<and> \<not> (v \<noteq> [] \<and> length (viewBoxParts v) = 4 \<and> list_all isFinite (viewBoxParts v))"
  then show "parseSvgSize parse text = (Num 256, Num 256)"
    by (auto simp add: parseSvgSize_def numericAttribute_def viewBoxParts_def Let_def
        DEFAULT_SVG_SIZE_def)
next
  fix doc svg
  assume p: "parse text = Inr doc \<and> querySelector ''svg'' doc = Some svg"
    and n: "\<not> (numericAttribute svg ''width'' \<and> numericAttribute svg ''height'')"
    and v: "getAttribute svg ''viewBox'' = None"
  then show "parseSvgSize parse text = (Num 256, Num 256)"
    by (auto simp add: parseSvgSize_def numericAttribute_def Let_def DEFAULT_SVG_SIZE_def)
qed

lemma parseSvgSize_finite:
  "isFinite (fst (parseSvgSize p t)) \<and> isFinite (snd (parseSvgSize p t))"
proof -
  have d: "isFinite DEFAULT_SVG_SIZE"
    by (simp add: DEFAULT_SVG_SIZE_def isFinite_def)
  have parts: "isFinite (f (ys ! 2)) \<and> isFinite (f (ys ! 3))"
    if "length ys = 4" "list_all isFinite (map f ys)" for f :: "string \<Rightarrow> jsnum" and ys
    using that by (simp add: list_all_length)
  show ?thesis
    unfolding parseSvgSize_def Let_def
    by (auto simp add: d parts split: sum.splits option.splits)
qed

lemma orElse_dimension:
  assumes "isFinite a"
  shows "isFinite (orElse (orElse a (Num (of_nat n))) DEFAULT_SVG_SIZE)"
    and "orElse (orElse a (Num (of_nat n))) DEFAULT_SVG_SIZE \<noteq> Num 0"
    and "orElse (orElse a (Num (of_nat n))) DEFAULT_SVG_SIZE \<noteq> NaN"
    and "orElse (orElse a (Num (of_nat n))) DEFAULT_SVG_SIZE = firstNonZero a n"
  using assms
  by (auto simp add: orElse_def truthy_def isFinite_def DEFAULT_SVG_SIZE_def firstNonZero_def
      split: jsnum.splits)

lemma orElse_raster:
  "orElse (orElse (Num 0) (Num (of_nat n))) DEFAULT_SVG_SIZE = Num (if n = 0 then 256 else of_nat n)"
  by (simp add: orElse_def truthy_def DEFAULT_SVG_SIZE_def)

lemma awaitImage_dimensions:
  assumes "fst (awaitImage e b sz u st) = Inr ld" and "isFinite (fst sz)" and "isFinite (snd sz)"
  shows "isFinite (width ld) \<and> isFinite (height ld) \<and> width ld \<noteq> Num 0 \<and> height ld \<noteq> Num 0
    \<and> width ld \<noteq> NaN \<and> height ld \<noteq> NaN
    \<and> width ld = orElse (orElse (fst sz) (Num (of_nat (naturalWidth (img ld))))) DEFAULT_SVG_SIZE
    \<and> height ld = orElse (orElse (snd sz) (Num (of_nat (naturalHeight (img ld))))) DEFAULT_SVG_SIZE"
  using assms orElse_dimension(1-3) [of "fst sz"] orElse_dimension(1-3) [of "snd sz"]
  by (auto simp add: awaitImage_def split: option.splits)

text \<open>
  Claim C7, amended. For every input that \<open>loadImageFromFile\<close> decodes, the width and
  the height it returns are finite numbers, never \<open>NaN\<close> and never zero. For an input
  that is not an SVG each is a positive integer: the natural width or height of the
  decoded image, or 256 where that is zero. For an SVG each is the first that is not zero
  of: the width or height \<open>parseSvgSize\<close> reads from the text of the file, the natural
  width or height of the decoded image, 256.
\<close>

theorem loaded_dimensions:
  assumes "fst (loadImageFromFile e file st) = Inr ld"
  shows "isFinite (width ld) \<and> isFinite (height ld)
    \<and> width ld \<noteq> NaN \<and> height ld \<noteq> NaN \<and> width ld \<noteq> Num 0 \<and> height ld \<noteq> Num 0
    \<and> (\<not> isSvgFile file \<longrightarrow>
          width ld = Num (if naturalWidth (img ld) = 0 then 256 else of_nat (naturalWidth (img ld)))
          \<and> height ld = Num (if naturalHeight (img ld) = 0 then 256 else of_nat (naturalHeight (img ld)))
          \<and> isInteger (width ld) \<and> isInteger (height ld))
    \<and> (isSvgFile file \<longrightarrow>
          (\<exists>svgText. readText e file = Inr svgText
             \<and> width ld = firstNonZero (fst (parseSvgSize (parseFromString e) svgText))
                             (naturalWidth (img ld))
             \<and> height ld = firstNonZero (snd (parseSvgSize (parseFromString e) svgText))
                              (naturalHeight (img ld))))"
proof (cases "isSvgFile file")
  case True
  with assms obtain t st2 u where
    t: "readText e file = Inr t" and
    a: "fst (awaitImage e \<lparr>bytes = encodeText e t, mime = ''image/svg+xml''\<rparr>
              (parseSvgSize (parseFromString e) t) u st2) = Inr ld"
    by (auto simp add: loadImageFromFile_def Let_def split_def split: sum.splits)
  note fin = parseSvgSize_finite [of "parseFromString e" t]
  note d = awaitImage_dimensions [OF a fin [THEN conjunct1] fin [THEN conjunct2]]
  have w: "width ld = firstNonZero (fst (parseSvgSize (parseFromString e) t)) (naturalWidth (img ld))"
    using d orElse_dimension(4) [OF fin [THEN conjunct1]] by simp
  have h: "height ld = firstNonZero (snd (parseSvgSize (parseFromString e) t)) (naturalHeight (img ld))"
    using d orElse_dimension(4) [OF fin [THEN conjunct2]] by simp
  from d True t w h show ?thesis
    by blast
next
  case False
  with assms obtain st1 u where
    a: "fst (awaitImage e (fileBlob file) (Num 0, Num 0) u st1) = Inr ld"
    by (auto simp add: loadImageFromFile_def Let_def split_def)
  have f: "isFinite (fst (Num 0, Num 0))" "isFinite (snd (Num 0, Num 0))"
    by (simp_all add: isFinite_def)
  from awaitImage_dimensions [OF a f] False
  show ?thesis
    by (simp add: orElse_raster isInteger_def isFinite_def)
qed

section \<open>What a run delivers\<close>

lemma createObjectURL_frame [simp]:
  "items (snd (createObjectURL st)) = items st"
  "history (snd (createObjectURL st)) = history st"
  "downloads (snd (createObjectURL st)) = downloads st"
  "files (snd (createObjectURL st)) = files st"
  "busy (snd (createObjectURL st)) = busy st"
  by (simp_all add: createObjectURL_def)

lemma revokeObjectURL_frame [simp]:
  "items (revokeObjectURL u st) = items st"
  "history (revokeObjectURL u st) = history st"
  "downloads (revokeObjectURL u st) = downloads st"
  "files (revokeObjectURL u st) = files st"
  "busy (revokeObjectURL u st) = busy st"
  by (simp_all add: revokeObjectURL_def)

lemma downloadBlob_frame [simp]:
  "items (downloadBlob b n st) = items st"
  "history (downloadBlob b n st) = history st"
  "downloads (downloadBlob b n st) = downloads st @ [(n, b)]"
  "files (downloadBlob b n st) = files st"
  "busy (downloadBlob b n st) = busy st"
  by (simp_all add: downloadBlob_def split_def Let_def createObjectURL_def revokeObjectURL_def)

lemma setItems_frame [simp]:
  "items (setItems f st) = f (items st)"
  "history (setItems f st) = history st @ [items st]"
  "downloads (setItems f st) = downloads st"
  "files (setItems f st) = files st"
  "busy (setItems f st) = busy st"
  "liveUrls (setItems f st) = liveUrls st"
  "urlCount (setItems f st) = urlCount st"
  by (simp_all add: setItems_def)

lemma updateItem_frame [simp]:
  "items (updateItem n p st) = map (\<lambda>it. if itemName it = n then p it else it) (items st)"
  "history (updateItem n p st) = history st @ [items st]"
  "downloads (updateItem n p st) = downloads st"
  "files (updateItem n p st) = files st"
  "busy (updateItem n p st) = busy st"
  "liveUrls (updateItem n p st) = liveUrls st"
  "urlCount (updateItem n p st) = urlCount st"
  by (simp_all add: updateItem_def)

lemma awaitImage_frame [simp]:
  "snd (awaitImage e b sz u st) = st"
  by (simp add: awaitImage_def split: option.splits prod.splits)

lemma loadImageFromFile_frame [simp]:
  "items (snd (loadImageFromFile e f st)) = items st"
  "history (snd (loadImageFromFile e f st)) = history st"
  "downloads (snd (loadImageFromFile e f st)) = downloads st"
  "files (snd (loadImageFromFile e f st)) = files st"
  "busy (snd (loadImageFromFile e f st)) = busy st"
  by (simp_all add: loadImageFromFile_def Let_def split_def split: sum.splits)

lemma convertLoaded_effect:
  assumes "convertLoaded e m single q isz f ld (st, z) = (r, st', z')"
  shows "items st' = items st \<and> history st' = history st \<and> files st' = files st \<and> busy st' = busy st
    \<and> (case r of
          Inl err \<Rightarrow> downloads st' = downloads st \<and> z' = z
        | Inr a \<Rightarrow> fst a = artifactName m f
            \<and> (if single then downloads st' = downloads st @ [a] \<and> z' = z
                else downloads st' = downloads st \<and> z' = addEntry z a))"
  using assms
  by (auto simp add: convertLoaded_def Let_def deliver_def artifactName_def addEntry_def
      split: if_splits sum.splits)

lemma processFile_effect:
  assumes "processFile e m single q isz f (st, z) = (r, st', z')"
  shows "files st' = files st \<and> busy st' = busy st
    \<and> (case r of
          Inl err \<Rightarrow> downloads st' = downloads st \<and> z' = z
        | Inr a \<Rightarrow> fst a = artifactName m f
            \<and> (if single then downloads st' = downloads st @ [a] \<and> z' = z
                else downloads st' = downloads st \<and> z' = addEntry z a))"
proof -
  let ?st1 = "updateItem (name f) workingPatch st"
  obtain r0 st2 where load: "loadImageFromFile e f ?st1 = (r0, st2)"
    by (cases "loadImageFromFile e f ?st1")
  have fr: "downloads st2 = downloads st" "files st2 = files st" "busy st2 = busy st"
    using loadImageFromFile_frame [of e f ?st1] load by simp_all
  show ?thesis
  proof (cases r0)
    case (Inl err)
    with assms load fr show ?thesis
      by (auto simp add: processFile_def Let_def)
  next
    case (Inr ld)
    obtain r1 st3 z3 where conv: "convertLoaded e m single q isz f ld (st2, z) = (r1, st3, z3)"
      by (cases "convertLoaded e m single q isz f ld (st2, z)")
    from convertLoaded_effect [OF conv] assms load Inr conv fr show ?thesis
      by (auto simp add: processFile_def Let_def split: sum.splits if_splits)
  qed
qed

lemma convertLoop_effect:
  "convertLoop e m single q isz fs (st, z) = (rs, st', z') \<Longrightarrow>
   length rs = length fs \<and> files st' = files st \<and> busy st' = busy st
   \<and> (\<forall>i < length fs. \<forall>a. rs ! i = Inr a \<longrightarrow> fst a = artifactName m (fs ! i))
   \<and> (if single then downloads st' = downloads st @ successes rs \<and> z' = z
       else downloads st' = downloads st \<and> z' = foldl addEntry z (successes rs))"
proof (induction fs arbitrary: st z rs st' z')
  case Nil
  then show ?case by simp
next
  case (Cons f fs)
  obtain r st1 z1 where p: "processFile e m single q isz f (st, z) = (r, st1, z1)"
    by (cases "processFile e m single q isz f (st, z)")
  obtain rs2 st2 z2 where l: "convertLoop e m single q isz fs (st1, z1) = (rs2, st2, z2)"
    by (cases "convertLoop e m single q isz fs (st1, z1)")
  from Cons.prems p l have eq: "rs = r # rs2" "st' = st2" "z' = z2"
    by simp_all
  note ih = Cons.IH [OF l]
  note pe = processFile_effect [OF p]
  have names: "\<forall>i < length (f # fs). \<forall>a. rs ! i = Inr a \<longrightarrow> fst a = artifactName m ((f # fs) ! i)"
  proof (intro allI impI)
    fix i a assume i: "i < length (f # fs)" and a: "rs ! i = Inr a"
    show "fst a = artifactName m ((f # fs) ! i)"
    proof (cases i)
      case 0
      with a eq pe show ?thesis by simp
    next
      case (Suc j)
      with i a eq ih show ?thesis by (cases a) auto
    qed
  qed
  from ih pe eq names show ?case
    by (cases r) (auto split: if_splits)
qed

lemma zipFile_names: "map fst (zipFile z n b) = (if n \<in> set (map fst z) then map fst z else map fst z @ [n])"
  by (auto simp add: zipFile_def split_def)

lemma addEntry_names: "fst ` set (addEntry z a) = insert (fst a) (fst ` set z)"
  using zipFile_names [of z "fst a" "snd a"]
  by (metis (no_types, lifting) addEntry_def insert_absorb list.set_map list.simps(15) set_append Un_insert_right sup_bot.right_neutral list.set(1))

lemma foldl_addEntry_names:
  "fst ` set (foldl addEntry z as) = fst ` set z \<union> fst ` set as"
proof (induction as arbitrary: z)
  case Nil
  show ?case by simp
next
  case (Cons a as)
  have "fst ` set (foldl addEntry (addEntry z a) as)
      = fst ` set (addEntry z a) \<union> fst ` set as"
    by (rule Cons.IH)
  then show ?case
    by (simp add: addEntry_names)
qed

lemma successes_all_failed: "\<forall>r \<in> set rs. isl r \<Longrightarrow> successes rs = []"
  by (induction rs rule: successes.induct) simp_all

lemma convertAll_unfold:
  assumes "\<not> busy st" "files st \<noteq> []"
    and "convertLoop e m (length (files st) = 1) (quality st) (iconSize st) (files st)
           (st\<lparr>busy := True\<rparr>, []) = (rs, st1, z)"
  shows "convertAll e m st =
     (if length (files st) > 1
      then (case generateAsync e z of
              Inl err \<Rightarrow> \<lparr>outcomes = rs, final = st1\<lparr>busy := False\<rparr>, archive = Some z,
                           rejected = Some err\<rparr>
            | Inr zipBlob \<Rightarrow> \<lparr>outcomes = rs,
                               final = (downloadBlob zipBlob (zipName m) st1)\<lparr>busy := False\<rparr>,
                               archive = Some z, rejected = None\<rparr>)
      else \<lparr>outcomes = rs, final = st1\<lparr>busy := False\<rparr>, archive = None, rejected = None\<rparr>)"
  using assms by (simp add: convertAll_def Let_def)

text \<open>
  What a run delivers. For every run that starts (files present, not busy), every
  iteration that succeeds produces the artifact named by the base name of its file and
  \<open>.webp\<close> or \<open>.ico\<close> according to the mode. With exactly one file no archive is built
  and the downloads of the run are the artifacts of the successful iterations, that is
  the one artifact, or nothing when the file failed. With more than one file the archive
  is built by adding the artifacts of the successful iterations in order, each under its
  name, and the only download of the run is that archive, named \<open>webp-conversions.zip\<close>
  or \<open>ico-icons.zip\<close> according to the mode (no download when the archive writer
  fails).
\<close>

lemma convertAll_outputs:
  assumes "\<not> busy st" and "files st \<noteq> []"
  shows "length (outcomes (convertAll e m st)) = length (files st)
    \<and> (\<forall>i < length (files st). \<forall>a. outcomes (convertAll e m st) ! i = Inr a
          \<longrightarrow> fst a = stem (name (files st ! i)) @ (if m = Webp then ''.webp'' else ''.ico''))
    \<and> (length (files st) = 1 \<longrightarrow>
          archive (convertAll e m st) = None
          \<and> downloads (final (convertAll e m st))
              = downloads st @ successes (outcomes (convertAll e m st)))
    \<and> (length (files st) > 1 \<longrightarrow>
          archive (convertAll e m st)
            = Some (foldl addEntry [] (successes (outcomes (convertAll e m st))))
          \<and> downloads (final (convertAll e m st))
              = downloads st @
                (case generateAsync e (foldl addEntry [] (successes (outcomes (convertAll e m st)))) of
                   Inr zipBlob \<Rightarrow>
                     [(if m = Webp then ''webp-conversions.zip'' else ''ico-icons.zip'', zipBlob)]
                 | Inl err \<Rightarrow> []))"
proof -
  obtain rs st1 z where loop:
    "convertLoop e m (length (files st) = 1) (quality st) (iconSize st) (files st)
       (st\<lparr>busy := True\<rparr>, []) = (rs, st1, z)"
    by (cases "convertLoop e m (length (files st) = 1) (quality st) (iconSize st) (files st)
       (st\<lparr>busy := True\<rparr>, [])")
  note eff = convertLoop_effect [OF loop]
  note run = convertAll_unfold [OF assms loop]
  have out: "outcomes (convertAll e m st) = rs"
    by (simp add: run split: sum.splits)
  have len: "length rs = length (files st)"
    using eff by simp
  have names: "\<forall>i < length (files st). \<forall>a. rs ! i = Inr a
      \<longrightarrow> fst a = stem (name (files st ! i)) @ (if m = Webp then ''.webp'' else ''.ico'')"
    using eff by (simp add: artifactName_def getBaseName_stem)
  have single: "length (files st) = 1 \<longrightarrow>
      archive (convertAll e m st) = None
      \<and> downloads (final (convertAll e m st)) = downloads st @ successes rs"
    using eff by (simp add: run)
  have multi: "length (files st) > 1 \<longrightarrow>
      archive (convertAll e m st) = Some (foldl addEntry [] (successes rs))
      \<and> downloads (final (convertAll e m st))
          = downloads st @
            (case generateAsync e (foldl addEntry [] (successes rs)) of
               Inr zipBlob \<Rightarrow>
                 [(if m = Webp then ''webp-conversions.zip'' else ''ico-icons.zip'', zipBlob)]
             | Inl err \<Rightarrow> [])"
  proof
    assume many: "length (files st) > 1"
    with eff have z: "z = foldl addEntry [] (successes rs)" and d: "downloads st1 = downloads st"
      by simp_all
    show "archive (convertAll e m st) = Some (foldl addEntry [] (successes rs))
      \<and> downloads (final (convertAll e m st))
          = downloads st @
            (case generateAsync e (foldl addEntry [] (successes rs)) of
               Inr zipBlob \<Rightarrow>
                 [(if m = Webp then ''webp-conversions.zip'' else ''ico-icons.zip'', zipBlob)]
             | Inl err \<Rightarrow> [])"
      using many d unfolding z [symmetric]
      by (simp add: run zipName_def split: sum.splits)
  qed
  from len names single multi show ?thesis
    unfolding out by blast
qed

text \<open>
  Claim C10. For every run that starts, an archive is built exactly when there is more
  than one file, whatever the iterations did. When there is more than one file and every
  iteration failed, the archive is built from zero entries and it is the download of the
  run (no download when the archive writer fails on it).
\<close>

theorem convertAll_all_failed:
  assumes "\<not> busy st" and "files st \<noteq> []"
  shows "(archive (convertAll e m st) \<noteq> None) = (length (files st) > 1)
    \<and> (length (files st) > 1 \<and> (\<forall>r \<in> set (outcomes (convertAll e m st)). isl r) \<longrightarrow>
          archive (convertAll e m st) = Some []
          \<and> downloads (final (convertAll e m st))
              = downloads st @
                (case generateAsync e [] of
                   Inr zipBlob \<Rightarrow> [(zipName m, zipBlob)]
                 | Inl err \<Rightarrow> []))"
proof -
  obtain rs st1 z where loop:
    "convertLoop e m (length (files st) = 1) (quality st) (iconSize st) (files st)
       (st\<lparr>busy := True\<rparr>, []) = (rs, st1, z)"
    by (cases "convertLoop e m (length (files st) = 1) (quality st) (iconSize st) (files st)
       (st\<lparr>busy := True\<rparr>, [])")
  note eff = convertLoop_effect [OF loop]
  note run = convertAll_unfold [OF assms loop]
  have out: "outcomes (convertAll e m st) = rs"
    by (simp add: run split: sum.splits)
  have count: "(archive (convertAll e m st) \<noteq> None) = (length (files st) > 1)"
    by (simp add: run split: sum.splits)
  have empty: "length (files st) > 1 \<and> (\<forall>r \<in> set rs. isl r) \<longrightarrow>
      archive (convertAll e m st) = Some []
      \<and> downloads (final (convertAll e m st))
          = downloads st @
            (case generateAsync e [] of
               Inr zipBlob \<Rightarrow> [(zipName m, zipBlob)]
             | Inl err \<Rightarrow> [])"
  proof
    assume h: "length (files st) > 1 \<and> (\<forall>r \<in> set rs. isl r)"
    then have s: "successes rs = []"
      by (simp add: successes_all_failed)
    with h eff have z: "z = []" and d: "downloads st1 = downloads st"
      by simp_all
    from h z d show "archive (convertAll e m st) = Some []
      \<and> downloads (final (convertAll e m st))
          = downloads st @
            (case generateAsync e [] of
               Inr zipBlob \<Rightarrow> [(zipName m, zipBlob)]
             | Inl err \<Rightarrow> [])"
      by (simp add: run split: sum.splits)
  qed
  from count empty show ?thesis
    unfolding out by blast
qed

section \<open>The quality setting is read only by the WebP branch\<close>

lemma createObjectURL_quality:
  "createObjectURL (st\<lparr>quality := x\<rparr>)
     = (fst (createObjectURL st), (snd (createObjectURL st))\<lparr>quality := x\<rparr>)"
  by (simp add: createObjectURL_def)

lemma revokeObjectURL_quality:
  "revokeObjectURL u (st\<lparr>quality := x\<rparr>) = (revokeObjectURL u st)\<lparr>quality := x\<rparr>"
  by (simp add: revokeObjectURL_def)

lemma downloadBlob_quality:
  "downloadBlob b n (st\<lparr>quality := x\<rparr>) = (downloadBlob b n st)\<lparr>quality := x\<rparr>"
  by (simp add: downloadBlob_def createObjectURL_def revokeObjectURL_def Let_def)

lemma updateItem_quality:
  "updateItem n p (st\<lparr>quality := x\<rparr>) = (updateItem n p st)\<lparr>quality := x\<rparr>"
  by (simp add: updateItem_def setItems_def)

lemma awaitImage_quality:
  "awaitImage e b sz u (st\<lparr>quality := x\<rparr>)
     = (fst (awaitImage e b sz u st), (snd (awaitImage e b sz u st))\<lparr>quality := x\<rparr>)"
  by (simp add: awaitImage_def split: option.splits)

lemma loadImageFromFile_quality:
  "loadImageFromFile e f (st\<lparr>quality := x\<rparr>)
     = (fst (loadImageFromFile e f st), (snd (loadImageFromFile e f st))\<lparr>quality := x\<rparr>)"
  by (simp add: loadImageFromFile_def createObjectURL_quality awaitImage_quality Let_def split_def
      split: sum.splits)

lemma convertLoaded_Ico_quality:
  "convertLoaded e Ico single q isz f ld (st\<lparr>quality := x\<rparr>, z)
     = (case convertLoaded e Ico single q' isz f ld (st, z) of
          (r, st', z') \<Rightarrow> (r, st'\<lparr>quality := x\<rparr>, z'))"
  by (simp add: convertLoaded_def deliver_def downloadBlob_quality Let_def split: sum.splits)

lemma processFile_Ico_quality:
  "processFile e Ico single q isz f (st\<lparr>quality := x\<rparr>, z)
     = (case processFile e Ico single q' isz f (st, z) of
          (r, st', z') \<Rightarrow> (r, st'\<lparr>quality := x\<rparr>, z'))"
proof -
  let ?st1 = "updateItem (name f) workingPatch st"
  obtain r0 st2 where load: "loadImageFromFile e f ?st1 = (r0, st2)"
    by (cases "loadImageFromFile e f ?st1")
  then have load': "loadImageFromFile e f (?st1\<lparr>quality := x\<rparr>) = (r0, st2\<lparr>quality := x\<rparr>)"
    by (simp add: loadImageFromFile_quality)
  show ?thesis
  proof (cases r0)
    case (Inl err)
    with load load' show ?thesis
      by (simp add: processFile_def updateItem_quality Let_def)
  next
    case (Inr ld)
    obtain r1 st3 z3 where conv: "convertLoaded e Ico single q' isz f ld (st2, z) = (r1, st3, z3)"
      by (cases "convertLoaded e Ico single q' isz f ld (st2, z)")
    then have conv': "convertLoaded e Ico single q isz f ld (st2\<lparr>quality := x\<rparr>, z)
        = (r1, st3\<lparr>quality := x\<rparr>, z3)"
      by (simp add: convertLoaded_Ico_quality [where q' = q'])
    from load load' Inr conv conv' show ?thesis
      by (simp add: processFile_def updateItem_quality revokeObjectURL_quality Let_def
          split: sum.splits)
  qed
qed

lemma convertLoop_Ico_quality:
  "convertLoop e Ico single q isz fs (st\<lparr>quality := x\<rparr>, z)
     = (case convertLoop e Ico single q' isz fs (st, z) of
          (rs, st', z') \<Rightarrow> (rs, st'\<lparr>quality := x\<rparr>, z'))"
proof (induction fs arbitrary: st z)
  case Nil
  show ?case by simp
next
  case (Cons f fs)
  obtain r st1 z1 where p: "processFile e Ico single q' isz f (st, z) = (r, st1, z1)"
    by (cases "processFile e Ico single q' isz f (st, z)")
  then have p': "processFile e Ico single q isz f (st\<lparr>quality := x\<rparr>, z) = (r, st1\<lparr>quality := x\<rparr>, z1)"
    by (simp add: processFile_Ico_quality [where q' = q'])
  show ?case
    by (simp add: p p' Cons.IH split: prod.splits)
qed

lemma convertAll_Ico_quality:
  "convertAll e Ico (st\<lparr>quality := x\<rparr>)
     = (convertAll e Ico st)\<lparr>final := (final (convertAll e Ico st))\<lparr>quality := x\<rparr>\<rparr>"
proof (cases "files st = [] \<or> busy st")
  case True
  then show ?thesis
    by (auto simp add: convertAll_def)
next
  case False
  let ?b = "length (files st) = 1"
  obtain rs st1 z where loop:
    "convertLoop e Ico ?b (quality st) (iconSize st) (files st) (st\<lparr>busy := True\<rparr>, []) = (rs, st1, z)"
    by (cases "convertLoop e Ico ?b (quality st) (iconSize st) (files st) (st\<lparr>busy := True\<rparr>, [])")
  have perm: "st\<lparr>quality := x, busy := True\<rparr> = st\<lparr>busy := True\<rparr>\<lparr>quality := x\<rparr>"
    by simp
  have "convertLoop e Ico ?b x (iconSize st) (files st) (st\<lparr>quality := x, busy := True\<rparr>, [])
      = (rs, st1\<lparr>quality := x\<rparr>, z)"
    unfolding perm
    by (simp only: convertLoop_Ico_quality [where q' = "quality st"] loop prod.case)
  then have loop': "convertLoop e Ico (length (files (st\<lparr>quality := x\<rparr>)) = 1)
      (quality (st\<lparr>quality := x\<rparr>)) (iconSize (st\<lparr>quality := x\<rparr>)) (files (st\<lparr>quality := x\<rparr>))
      (st\<lparr>quality := x\<rparr>\<lparr>busy := True\<rparr>, []) = (rs, st1\<lparr>quality := x\<rparr>, z)"
    by simp
  from False have ok: "\<not> busy st" "files st \<noteq> []"
    and ok': "\<not> busy (st\<lparr>quality := x\<rparr>)" "files (st\<lparr>quality := x\<rparr>) \<noteq> []"
    by simp_all
  show ?thesis
    unfolding convertAll_unfold [OF ok loop] convertAll_unfold [OF ok' loop']
    by (simp add: downloadBlob_quality split: sum.splits)
qed

text \<open>
  Claim C8. For every browser, every state and every two quality values, the icon-mode
  run under the one and under the other gives the same result in every iteration, the
  same archive entries, the same downloads (names and bytes) and the same items. The
  icon branch calls the encoder with no quality (\<open>None\<close> in \<open>convertLoaded\<close>); the WebP
  branch passes the quality.
\<close>

theorem ico_output_independent_of_quality:
  "outcomes (convertAll e Ico (st\<lparr>quality := q1\<rparr>)) = outcomes (convertAll e Ico (st\<lparr>quality := q2\<rparr>))
   \<and> archive (convertAll e Ico (st\<lparr>quality := q1\<rparr>)) = archive (convertAll e Ico (st\<lparr>quality := q2\<rparr>))
   \<and> downloads (final (convertAll e Ico (st\<lparr>quality := q1\<rparr>)))
       = downloads (final (convertAll e Ico (st\<lparr>quality := q2\<rparr>)))
   \<and> items (final (convertAll e Ico (st\<lparr>quality := q1\<rparr>)))
       = items (final (convertAll e Ico (st\<lparr>quality := q2\<rparr>)))"
  by (simp add: convertAll_Ico_quality [where x = q1] convertAll_Ico_quality [where x = q2])

section \<open>The transitions of the items\<close>

lemma convertLoaded_items:
  "items (fst (snd (convertLoaded e m single q isz f ld (st, z)))) = items st
   \<and> history (fst (snd (convertLoaded e m single q isz f ld (st, z)))) = history st"
  by (simp add: convertLoaded_def deliver_def Let_def split: sum.splits)

lemma perform_keeps_items:
  assumes "\<not> replacesItems a"
  shows "items (perform a st) = items st" and "history (perform a st) = history st"
  using assms by (cases a; simp add: perform_def replacesItems_def)+

lemma performAll_keeps_items:
  assumes "list_all (\<lambda>a. \<not> replacesItems a) acts"
  shows "items (performAll acts st) = items st \<and> history (performAll acts st) = history st"
  using assms unfolding performAll_def
  by (induction acts arbitrary: st) (simp_all add: perform_keeps_items)

lemma processFileDuring_items:
  assumes "processFileDuring e m single q isz acts f (st, z) = (r, st', z')"
    and "list_all (\<lambda>a. \<not> replacesItems a) acts"
  shows "history st' = history st @ [items st, map (patchNamed (name f) workingPatch) (items st)]"
    and "items st' = map (patchNamed (name f) (finishPatch r))
                       (map (patchNamed (name f) workingPatch) (items st))"
proof -
  let ?st1 = "updateItem (name f) workingPatch st"
  obtain r0 st2 where load: "loadImageFromFile e f ?st1 = (r0, st2)"
    by (cases "loadImageFromFile e f ?st1")
  let ?st2 = "performAll acts st2"
  have fr: "items ?st2 = items ?st1" "history ?st2 = history ?st1"
    using loadImageFromFile_frame [of e f ?st1] load performAll_keeps_items [OF assms(2), of st2]
    by simp_all
  have "history st' = history st @ [items st, map (patchNamed (name f) workingPatch) (items st)]
    \<and> items st' = map (patchNamed (name f) (finishPatch r))
                       (map (patchNamed (name f) workingPatch) (items st))"
  proof (cases r0)
    case (Inl err)
    with assms(1) load fr show ?thesis
      by (auto simp add: processFileDuring_def Let_def patchNamed_def finishPatch_def)
  next
    case (Inr ld)
    obtain r1 st3 z3 where conv: "convertLoaded e m single q isz f ld (?st2, z) = (r1, st3, z3)"
      by (cases "convertLoaded e m single q isz f ld (?st2, z)")
    with convertLoaded_items [of e m single q isz f ld ?st2 z]
    have fr3: "items st3 = items ?st2" "history st3 = history ?st2"
      by simp_all
    from assms(1) load Inr conv fr fr3 show ?thesis
      by (auto simp add: processFileDuring_def Let_def patchNamed_def finishPatch_def split: sum.splits)
  qed
  then show "history st' = history st @ [items st, map (patchNamed (name f) workingPatch) (items st)]"
    and "items st' = map (patchNamed (name f) (finishPatch r))
                       (map (patchNamed (name f) workingPatch) (items st))"
    by simp_all
qed

text \<open>With no action during it, the run is the run of \<open>convertAll\<close>.\<close>

lemma processFileDuring_none:
  "processFileDuring e m single q isz [] f sz = processFile e m single q isz f sz"
  by (simp add: processFileDuring_def processFile_def performAll_def)

lemma convertLoopDuring_none:
  "concat acts = [] \<Longrightarrow>
   convertLoopDuring e m single q isz acts fs sz = convertLoop e m single q isz fs sz"
proof (induction fs arbitrary: acts sz)
  case Nil
  show ?case by simp
next
  case (Cons f fs)
  from Cons.prems have now: "(case acts of [] \<Rightarrow> [] | a # as \<Rightarrow> a) = []"
    and later: "concat (tl acts) = []"
    by (cases acts; simp)+
  show ?case
    by (simp add: now processFileDuring_none Cons.IH [OF later])
qed

lemma convertAllDuring_none:
  "concat acts = [] \<Longrightarrow> convertAllDuring e m acts [] st = convertAll e m st"
  by (simp add: convertAllDuring_def convertAll_def convertLoopDuring_none performAll_def Let_def
      split: prod.splits)

lemma processFile_items:
  assumes "processFile e m single q isz f (st, z) = (r, st', z')"
  shows "history st' = history st @ [items st, map (patchNamed (name f) workingPatch) (items st)]"
    and "items st' = map (patchNamed (name f) (finishPatch r))
                       (map (patchNamed (name f) workingPatch) (items st))"
  using processFileDuring_items [of e m single q isz "[]" f st z r st' z'] assms
  by (simp_all add: processFileDuring_none)

lemma allowed_restart: "allowedStep a b \<Longrightarrow> restartStep a b"
  by (simp add: restartStep_def)

lemma itemsStep_restart: "itemsStep allowedStep xs ys \<Longrightarrow> itemsStep restartStep xs ys"
  unfolding itemsStep_def by (erule list_all2_mono) (simp add: allowed_restart)

lemma step_working:
  assumes "\<forall>it \<in> set xs. itemName it = n \<longrightarrow> status it = Ready"
  shows "itemsStep allowedStep xs (map (patchNamed n workingPatch) xs)"
  using assms
  by (induction xs) (auto simp add: itemsStep_def patchNamed_def workingPatch_def allowedStep_def)

lemma step_working_again:
  "itemsStep restartStep xs (map (patchNamed n workingPatch) xs)"
proof (induction xs)
  case Nil
  show ?case by (simp add: itemsStep_def)
next
  case (Cons x xs)
  have "restartStep (status x) Working"
    by (cases "status x") (simp_all add: restartStep_def allowedStep_def)
  with Cons show ?case
    by (simp add: itemsStep_def patchNamed_def workingPatch_def restartStep_def allowedStep_def)
qed

lemma step_finish:
  "itemsStep allowedStep (map (patchNamed n workingPatch) xs)
     (map (patchNamed n (finishPatch r)) (map (patchNamed n workingPatch) xs))"
  by (induction xs)
    (auto simp add: itemsStep_def patchNamed_def workingPatch_def finishPatch_def donePatch_def
      errorPatch_def allowedStep_def split: sum.splits)

lemma others_untouched:
  assumes "itemName it \<noteq> n"
  shows "patchNamed n p it = it"
  using assms by (simp add: patchNamed_def)

lemma patchNamed_name: "itemName (patchNamed n workingPatch it) = itemName it"
  "itemName (patchNamed n (finishPatch r) it) = itemName it"
  by (auto simp add: patchNamed_def workingPatch_def finishPatch_def donePatch_def errorPatch_def
      split: sum.splits)

lemma convertLoopDuring_trace:
  assumes "convertLoopDuring e m single q isz acts fs (st, z) = (rs, st', z')"
    and "list_all (\<lambda>a. \<not> replacesItems a) (concat acts)"
  shows "\<exists>tr. itemsTrace st' = history st @ items st # tr
    \<and> successively (itemsStep restartStep) (items st # tr)
    \<and> (distinct (map name fs)
         \<and> (\<forall>it \<in> set (items st). itemName it \<in> set (map name fs) \<longrightarrow> status it = Ready)
       \<longrightarrow> successively (itemsStep allowedStep) (items st # tr))"
  using assms
proof (induction fs arbitrary: st z rs st' z' acts)
  case Nil
  then show ?case
    by (simp add: itemsTrace_def)
next
  case (Cons f fs)
  let ?now = "case acts of [] \<Rightarrow> [] | a # as \<Rightarrow> a"
  have now: "list_all (\<lambda>a. \<not> replacesItems a) ?now"
    and later: "list_all (\<lambda>a. \<not> replacesItems a) (concat (tl acts))"
    using Cons.prems(2) by (cases acts; simp)+
  obtain r st1 z1 where p: "processFileDuring e m single q isz ?now f (st, z) = (r, st1, z1)"
    by (cases "processFileDuring e m single q isz ?now f (st, z)")
  obtain rs2 st2 z2 where l: "convertLoopDuring e m single q isz (tl acts) fs (st1, z1) = (rs2, st2, z2)"
    by (cases "convertLoopDuring e m single q isz (tl acts) fs (st1, z1)")
  from Cons.prems(1) p l have eq: "st' = st2"
    by simp
  let ?w = "map (patchNamed (name f) workingPatch) (items st)"
  note h1 = processFileDuring_items(1) [OF p now]
  note i1 = processFileDuring_items(2) [OF p now]
  have s2: "itemsStep allowedStep ?w (items st1)"
    unfolding i1 by (rule step_finish)
  from Cons.IH [OF l later] obtain tr where
    tr: "itemsTrace st2 = history st1 @ items st1 # tr"
    and again: "successively (itemsStep restartStep) (items st1 # tr)"
    and fresh: "distinct (map name fs)
         \<and> (\<forall>it \<in> set (items st1). itemName it \<in> set (map name fs) \<longrightarrow> status it = Ready)
       \<longrightarrow> successively (itemsStep allowedStep) (items st1 # tr)"
    by blast
  have t: "itemsTrace st' = history st @ items st # (?w # items st1 # tr)"
    unfolding eq tr h1 by simp
  have a: "successively (itemsStep restartStep) (items st # ?w # items st1 # tr)"
    using step_working_again [of "items st" "name f"] itemsStep_restart [OF s2] again by simp
  have b: "successively (itemsStep allowedStep) (items st # ?w # items st1 # tr)"
    if d0: "distinct (map name (f # fs))"
      and r0: "\<forall>it \<in> set (items st). itemName it \<in> set (map name (f # fs)) \<longrightarrow> status it = Ready"
  proof -
    have ready: "\<forall>it \<in> set (items st). itemName it = name f \<longrightarrow> status it = Ready"
      using r0 by simp
    have s1: "itemsStep allowedStep (items st) ?w"
      by (rule step_working [OF ready])
    have d: "distinct (map name fs)" and nf: "name f \<notin> set (map name fs)"
      using d0 by simp_all
    have inv: "\<forall>it \<in> set (items st1). itemName it \<in> set (map name fs) \<longrightarrow> status it = Ready"
    proof (intro ballI impI)
      fix it assume a: "it \<in> set (items st1)" and b: "itemName it \<in> set (map name fs)"
      from a obtain it0 where it0: "it0 \<in> set (items st)"
        and it: "it = patchNamed (name f) (finishPatch r) (patchNamed (name f) workingPatch it0)"
        unfolding i1 by auto
      have nm: "itemName it = itemName it0"
        unfolding it by (simp add: patchNamed_name)
      with b nf have ne: "itemName it0 \<noteq> name f"
        by auto
      then have "it = it0"
        unfolding it by (simp add: others_untouched)
      moreover from r0 it0 b nm have "status it0 = Ready"
        by simp
      ultimately show "status it = Ready"
        by simp
    qed
    from fresh d inv have "successively (itemsStep allowedStep) (items st1 # tr)"
      by blast
    with s1 s2 show ?thesis
      by simp
  qed
  from t a b show ?case
    by blast
qed

text \<open>
  Claim C5, amended. For every run during which the user does nothing that replaces the
  item list (no files selected or dropped, no Clear): every change of the item list keeps
  the items and their names, and changes each status not at all or by one of \<open>Ready\<close> to
  \<open>Working\<close>, \<open>Working\<close> to \<open>Done\<close>, \<open>Working\<close> to \<open>Error\<close>, \<open>Done\<close> to \<open>Working\<close>,
  \<open>Error\<close> to \<open>Working\<close>; so an item reaches \<open>Done\<close> or \<open>Error\<close> from \<open>Working\<close> only. If
  moreover every item is \<open>Ready\<close> when the run starts and the files have pairwise
  distinct names, the last two do not occur: every change is \<open>Ready\<close> to \<open>Working\<close>,
  \<open>Working\<close> to \<open>Done\<close> or \<open>Working\<close> to \<open>Error\<close>.
\<close>

theorem run_transitions:
  assumes "list_all (\<lambda>a. \<not> replacesItems a) (concat acts @ zipActs)"
  shows "successively (itemsStep restartStep) (runTrace st (convertAllDuring e m acts zipActs st))
    \<and> ((\<forall>it \<in> set (items st). status it = Ready) \<and> distinct (map name (files st)) \<longrightarrow>
          successively (itemsStep allowedStep) (runTrace st (convertAllDuring e m acts zipActs st)))"
proof (cases "files st = [] \<or> busy st")
  case True
  then show ?thesis
    by (auto simp add: convertAllDuring_def runTrace_def itemsTrace_def)
next
  case False
  let ?loop = "convertLoopDuring e m (length (files st) = 1) (quality st) (iconSize st) acts (files st)
       (st\<lparr>busy := True\<rparr>, [])"
  obtain rs st1 z where loop: "?loop = (rs, st1, z)"
    by (cases ?loop)
  from assms have during: "list_all (\<lambda>a. \<not> replacesItems a) (concat acts)"
    and after: "list_all (\<lambda>a. \<not> replacesItems a) zipActs"
    by simp_all
  from convertLoopDuring_trace [OF loop during] obtain tr where
    tr: "itemsTrace st1 = history st @ items st # tr"
    and again: "successively (itemsStep restartStep) (items st # tr)"
    and fresh: "distinct (map name (files st))
         \<and> (\<forall>it \<in> set (items st). itemName it \<in> set (map name (files st)) \<longrightarrow> status it = Ready)
       \<longrightarrow> successively (itemsStep allowedStep) (items st # tr)"
    by auto
  have "itemsTrace (final (convertAllDuring e m acts zipActs st)) = itemsTrace st1"
    using False loop performAll_keeps_items [OF after, of st1]
    by (simp add: convertAllDuring_def Let_def itemsTrace_def split: sum.splits)
  then have rt: "runTrace st (convertAllDuring e m acts zipActs st) = items st # tr"
    using tr by (simp add: runTrace_def)
  from again fresh show ?thesis
    unfolding rt by blast
qed

section \<open>Isolation where names are distinct\<close>

lemma settle_ready:
  "patchNamed (name f) (finishPatch r) (patchNamed (name f) workingPatch (readyItem f)) = settledItem f r"
  by (simp add: patchNamed_def finishPatch_def workingPatch_def donePatch_def errorPatch_def
      readyItem_def settledItem_def split: sum.splits)

lemma settle_other:
  assumes "itemName it \<noteq> name f"
  shows "patchNamed (name f) (finishPatch r) (patchNamed (name f) workingPatch it) = it"
  using assms by (simp add: patchNamed_def)

lemma settledItem_name [simp]: "itemName (settledItem f r) = name f"
  by (simp add: settledItem_def split: sum.splits)

lemma readyItem_name [simp]: "itemName (readyItem f) = name f"
  by (simp add: readyItem_def)

lemma convertLoop_settles:
  assumes "convertLoop e m single q isz fs (st, z) = (rs, st', z')"
    and "distinct (map name fs)"
    and "items st = pre @ map readyItem fs"
    and "\<forall>it \<in> set pre. itemName it \<notin> set (map name fs)"
  shows "items st' = pre @ map2 settledItem fs rs"
  using assms
proof (induction fs arbitrary: st z rs st' z' pre)
  case Nil
  then show ?case by simp
next
  case (Cons f fs)
  obtain r st1 z1 where p: "processFile e m single q isz f (st, z) = (r, st1, z1)"
    by (cases "processFile e m single q isz f (st, z)")
  obtain rs2 st2 z2 where l: "convertLoop e m single q isz fs (st1, z1) = (rs2, st2, z2)"
    by (cases "convertLoop e m single q isz fs (st1, z1)")
  from Cons.prems(1) p l have eq: "rs = r # rs2" "st' = st2"
    by simp_all
  let ?g = "\<lambda>it. patchNamed (name f) (finishPatch r) (patchNamed (name f) workingPatch it)"
  have i1: "items st1 = map ?g (items st)"
    using processFile_items(2) [OF p] by simp
  have pre: "map ?g pre = pre"
    using Cons.prems(4) by (simp add: settle_other map_idI)
  have d: "distinct (map name fs)" and nf: "name f \<notin> set (map name fs)"
    using Cons.prems(2) by simp_all
  have rest: "\<forall>x \<in> set fs. ?g (readyItem x) = readyItem x"
  proof
    fix x assume "x \<in> set fs"
    with nf have "itemName (readyItem x) \<noteq> name f"
      by (metis image_eqI list.set_map readyItem_name)
    then show "?g (readyItem x) = readyItem x"
      by (rule settle_other)
  qed
  have items1: "items st1 = (pre @ [settledItem f r]) @ map readyItem fs"
    unfolding i1 Cons.prems(3) by (simp add: pre rest settle_ready)
  have fresh: "\<forall>it \<in> set (pre @ [settledItem f r]). itemName it \<notin> set (map name fs)"
    using Cons.prems(4) nf by auto
  from Cons.IH [OF l d items1 fresh] show ?case
    unfolding eq by simp
qed

text \<open>
  Isolation where names are distinct. For every run that starts over files with pairwise
  distinct names, with the items \<open>handleFiles\<close> made for them: every file is attempted,
  and afterwards the item of each file is \<open>Done\<close> with no detail when its iteration
  succeeded, and \<open>Error\<close> with the message of the thrown error as detail when it failed.
\<close>

lemma distinct_names_isolation:
  assumes "\<not> busy st" and "files st \<noteq> []"
    and "distinct (map name (files st))"
    and "items st = map readyItem (files st)"
  shows "length (outcomes (convertAll e m st)) = length (files st)
    \<and> items (final (convertAll e m st)) = map2 settledItem (files st) (outcomes (convertAll e m st))"
proof -
  obtain rs st1 z where loop:
    "convertLoop e m (length (files st) = 1) (quality st) (iconSize st) (files st)
       (st\<lparr>busy := True\<rparr>, []) = (rs, st1, z)"
    by (cases "convertLoop e m (length (files st) = 1) (quality st) (iconSize st) (files st)
       (st\<lparr>busy := True\<rparr>, [])")
  have i0: "items (st\<lparr>busy := True\<rparr>) = [] @ map readyItem (files st)"
    using assms(4) by simp
  have "items st1 = [] @ map2 settledItem (files st) rs"
    by (rule convertLoop_settles [OF loop assms(3) i0]) simp
  moreover have "length rs = length (files st)"
    using convertLoop_effect [OF loop] by simp
  moreover have "outcomes (convertAll e m st) = rs" "items (final (convertAll e m st)) = items st1"
    unfolding convertAll_unfold [OF assms(1,2) loop] by (simp_all split: sum.splits)
  ultimately show ?thesis
    by simp
qed

lemma addEntry_fresh: "fst a \<notin> fst ` set z \<Longrightarrow> addEntry z a = z @ [a]"
  by (simp add: addEntry_def zipFile_def)

lemma foldl_addEntry_distinct:
  "distinct (map fst (z @ as)) \<Longrightarrow> foldl addEntry z as = z @ as"
proof (induction as arbitrary: z)
  case Nil
  show ?case by simp
next
  case (Cons a as)
  from Cons.prems have fresh: "fst a \<notin> fst ` set z" and d: "distinct (map fst ((z @ [a]) @ as))"
    by auto
  from Cons.IH [OF d] show ?case
    by (simp add: addEntry_fresh [OF fresh])
qed

lemma successes_names:
  assumes "length rs = length fs"
    and "\<forall>i < length fs. \<forall>a. rs ! i = Inr a \<longrightarrow> fst a = g (fs ! i)"
  shows "set (map fst (successes rs)) \<subseteq> g ` set fs
    \<and> (distinct (map g fs) \<longrightarrow> distinct (map fst (successes rs)))"
  using assms
proof (induction rs fs rule: list_induct2)
  case Nil
  show ?case by simp
next
  case (Cons r rs f fs)
  have tl: "\<forall>i < length fs. \<forall>a. rs ! i = Inr a \<longrightarrow> fst a = g (fs ! i)"
  proof (intro allI impI)
    fix i a assume "i < length fs" "rs ! i = Inr a"
    with Cons.prems [rule_format, of "Suc i" a] show "fst a = g (fs ! i)"
      by simp
  qed
  note ih = Cons.IH [OF tl]
  show ?case
  proof (cases r)
    case (Inl err)
    with ih show ?thesis by auto
  next
    case (Inr a)
    with Cons.prems [rule_format, of 0 a] have "fst a = g f"
      by simp
    with Inr ih show ?thesis by auto
  qed
qed

text \<open>
  Where also the artifact names of the files are pairwise distinct, the archive of a run
  over more than one file holds exactly the artifacts of the successful iterations, in
  order.
\<close>

lemma distinct_artifacts_archive:
  assumes "\<not> busy st" and "length (files st) > 1"
    and "distinct (map (artifactName m) (files st))"
  shows "archive (convertAll e m st) = Some (successes (outcomes (convertAll e m st)))"
proof -
  from assms(2) have ne: "files st \<noteq> []"
    by auto
  obtain rs st1 z where loop:
    "convertLoop e m (length (files st) = 1) (quality st) (iconSize st) (files st)
       (st\<lparr>busy := True\<rparr>, []) = (rs, st1, z)"
    by (cases "convertLoop e m (length (files st) = 1) (quality st) (iconSize st) (files st)
       (st\<lparr>busy := True\<rparr>, [])")
  note eff = convertLoop_effect [OF loop]
  from eff have len: "length rs = length (files st)"
    and names: "\<forall>i < length (files st). \<forall>a. rs ! i = Inr a \<longrightarrow> fst a = artifactName m (files st ! i)"
    by simp_all
  from successes_names [OF len names] assms(3) have "distinct (map fst ([] @ successes rs))"
    by simp
  then have "foldl addEntry [] (successes rs) = successes rs"
    using foldl_addEntry_distinct [of "[]" "successes rs"] by simp
  with eff assms(2) have z: "z = successes rs"
    by simp
  show ?thesis
    unfolding convertAll_unfold [OF assms(1) ne loop]
    using assms(2) z by (simp split: sum.splits)
qed

text \<open>
  Once \<open>loadImageFromFile\<close> has returned, the object URL of its \<open>revoke\<close> is revoked at
  the end of the iteration, whether the rest of the iteration succeeds or fails.
\<close>

lemma loaded_url_revoked:
  assumes "loadImageFromFile e file (updateItem (name file) workingPatch st) = (Inr ld, st2)"
  shows "revokeUrl ld \<notin> set (liveUrls (fst (snd (processFile e m single q isz file (st, z)))))"
  using assms
  by (simp add: processFile_def Let_def revokeObjectURL_def split: prod.splits sum.splits)

section \<open>The examples\<close>

lemma floor_rat_numeral: "\<lfloor>numeral a / numeral b :: rat\<rfloor> = numeral a div numeral b"
  by (metis floor_divide_of_int_eq of_int_numeral)

lemma ceiling_rat_numeral: "\<lceil>numeral a / numeral b :: rat\<rceil> = - (- numeral a div numeral b)"
  by (metis ceiling_divide_eq_div of_int_numeral)

lemmas toNumber_defs =
  toNumber_def nearest_def ulp_def exponentOf_def roundTiesToEven_def pow2_def bitLength.simps
  floor_rat_numeral ceiling_rat_numeral

text \<open>Small integers and halves are binary64 values; 0.1 and the default quality 0.82 are
  rounded.\<close>

lemma toNumber_values:
  "toNumber 0 = Num 0" "toNumber 32 = Num 32" "toNumber 48 = Num 48" "toNumber 64 = Num 64"
  "toNumber 100 = Num 100" "toNumber (97 / 2) = Num (97 / 2)"
  by (simp_all add: toNumber_defs)

lemma toNumber_rounds:
  "toNumber (1 / 10) = Num (3602879701896397 / 36028797018963968)"
  "toNumber (41 / 50) = Num (7385903388887613 / 9007199254740992)"
  by (simp_all add: toNumber_defs)

lemmas string_defs =
  toLowerCase_def toLowerCaseChar_def popOrEmpty_def endsWith_def isWhiteSpace_def

lemmas number_defs =
  parseFloat_def parseSign_def parseExponent_def isDigit_def digitsValue_def scale10_def
  toNumber_values isFinite_def isInteger_def truthy_def orElse_def DEFAULT_SVG_SIZE_def

lemmas svg_defs =
  parseSvgSize_def getAttribute_def attributeOrEmpty_def numericAttribute_def viewBoxParts_def
  localName_def exampleParser_def exampleAttributes_def svgMarkup_def quoted_def

lemmas file_defs =
  isAcceptedFile_def ACCEPTED_TYPES_def getBaseName_def isSvgFile_def fileBlob_def
  spec_accepts_def spec_extension_def acceptedExtensions_def
  logoPng_def logoJpg_def brokenPng_def emptyPng_def iconSvg_def dotlessFile_def
  photoPng_def photoJpg_def

lemmas run_defs =
  convertAll_def processFile_def convertLoaded_def loadImageFromFile_def awaitImage_def
  canvasToBlob_def deliver_def zipFile_def zipName_def downloadBlob_def createObjectURL_def
  revokeObjectURL_def updateItem_def setItems_def syncItems_def handleFiles_def
  workingPatch_def donePatch_def errorPatch_def errorMessage_def
  initialState_def exampleEnv_def itemsTrace_def runTrace_def itemsStep_def allowedStep_def
  restartStep_def

lemmas during_defs =
  convertAllDuring_def processFileDuring_def performAll_def perform_def clearAll_def

text \<open>
  The spec's own examples of the sizing hold: \<open>width="48" height="48"\<close> gives 48 by 48,
  no width and height but \<open>viewBox="0 0 64 64"\<close> gives 64 by 64, neither gives 256 by
  256, and so does text that is not markup.
\<close>

lemma sizing_example_sized:
  "parseSvgSize exampleParser (svgMarkup [(''width'', ''48''), (''height'', ''48'')]) = (Num 48, Num 48)"
  by (simp add: svg_defs number_defs string_defs) (simp add: Let_def)

lemma sizing_examples:
  "parseSvgSize exampleParser (svgMarkup [(''viewBox'', ''0 0 64 64'')]) = (Num 64, Num 64)"
  "parseSvgSize exampleParser (svgMarkup []) = (Num 256, Num 256)"
  "parseSvgSize exampleParser ''<svg'' = (Num 256, Num 256)"
  by (simp_all add: svg_defs number_defs string_defs)

text \<open>
  Claim C2 fails on the code. \<open>viewBox="0,0,64,64"\<close> on an \<open>svg\<close> element without
  width and height has exactly four numeric components (commas separate the numbers of
  a \<open>viewBox\<close> as white space does), and the size is 256 by 256, not 64 by 64:
  \<^verbatim>\<open>split(/\s+/)\<close> finds one piece. The same numbers separated by a comma and a space are
  read, because \<open>parseFloat\<close> ignores the comma that ends a piece.
\<close>

theorem comma_viewBox_falls_back:
  "parseSvgSize exampleParser (svgMarkup [(''viewBox'', ''0,0,64,64'')]) = (Num 256, Num 256)
   \<and> parseSvgSize exampleParser (svgMarkup [(''viewBox'', ''0, 0, 64, 64'')]) = (Num 64, Num 64)"
  by (simp add: svg_defs number_defs string_defs)

text \<open>\<open>parseFloat\<close> reads the leading number of \<open>100%\<close>, so a percentage takes precedence over
  the \<open>viewBox\<close>.\<close>

lemma percent_width_read_as_number:
  "parseSvgSize exampleParser
     (svgMarkup [(''width'', ''100%''), (''height'', ''100%''), (''viewBox'', ''0 0 64 32'')])
   = (Num 100, Num 100)"
  by (simp add: svg_defs number_defs string_defs) (simp add: Let_def)

text \<open>
  Claim C9 fails on the code. A file named \<open>png\<close>, with no declared type, has no
  extension and none of the accepted types, and the validator accepts it:
  \<^verbatim>\<open>"png".split(".").pop()\<close> is the whole name. \<open>handleFiles\<close> keeps the file and makes
  an item for it. \<open>getBaseName\<close> takes the same name to have no extension.
\<close>

theorem dotless_name_is_accepted:
  "\<not> spec_accepts dotlessFile \<and> isAcceptedFile dotlessFile
   \<and> files (handleFiles [dotlessFile] initialState) = [dotlessFile]
   \<and> items (handleFiles [dotlessFile] initialState)
       = [\<lparr>itemName = ''png'', status = Ready, detail = None\<rparr>]
   \<and> getBaseName (name dotlessFile) = ''png''"
  by (simp add: handleFiles_def syncItems_def setItems_def file_defs string_defs initialState_def)

text \<open>Of \<open>logo.png\<close> and \<open>notes.txt\<close>, the first is kept and gets its ready item, the second
  is dropped.\<close>

lemma handleFiles_example:
  "isAcceptedFile logoPng \<and> spec_accepts logoPng \<and> \<not> isAcceptedFile notesTxt
   \<and> files (handleFiles [logoPng, notesTxt] initialState) = [logoPng]
   \<and> items (handleFiles [logoPng, notesTxt] initialState)
       = [\<lparr>itemName = ''logo.png'', status = Ready, detail = None\<rparr>]"
  by (simp add: handleFiles_def syncItems_def setItems_def file_defs string_defs initialState_def
      notesTxt_def)

lemma exampleEnv_fields:
  "parseFromString exampleEnv = exampleParser"
  "encodeText exampleEnv t = map (\<lambda>c. of_nat (of_char c)) t"
  "imageLoad exampleEnv b = (if bytes b = [] then None else Some (300, 150))"
  "getContext exampleEnv = True"
  by (simp_all add: exampleEnv_def)

lemma readText_iconSvg:
  "readText exampleEnv iconSvg = Inr (svgMarkup [(''width'', ''48.5''), (''height'', ''48.5'')])"
  by code_simp

lemma exampleParser_fraction:
  "parseSvgSize exampleParser (svgMarkup [(''width'', ''48.5''), (''height'', ''48.5'')])
     = (Num (97 / 2), Num (97 / 2))"
  by (simp add: svg_defs number_defs string_defs) (simp add: Let_def)

lemma svgMarkup_not_empty: "svgMarkup as \<noteq> []"
  by (simp add: svgMarkup_def)

lemma isSvgFile_iconSvg: "isSvgFile iconSvg"
  by (simp add: isSvgFile_def iconSvg_def)

lemma half_not_integer: "\<not> isInteger (Num (97 / 2))"
proof
  assume "isInteger (Num (97 / 2))"
  then have "of_int \<lfloor>97 / 2 :: rat\<rfloor> = (97 / 2 :: rat)"
    by (simp add: isInteger_def)
  then have "(of_int (2 * \<lfloor>97 / 2 :: rat\<rfloor>) :: rat) = of_int 97"
    by simp
  then have "2 * \<lfloor>97 / 2 :: rat\<rfloor> = 97"
    by (simp only: of_int_eq_iff)
  then show False
    by presburger
qed

lemma load_iconSvg:
  "fst (loadImageFromFile exampleEnv iconSvg initialState)
     = Inr \<lparr>img = \<lparr>src = \<lparr>bytes = encodeText exampleEnv
                                       (svgMarkup [(''width'', ''48.5''), (''height'', ''48.5'')]),
                           mime = ''image/svg+xml''\<rparr>,
                    naturalWidth = 300, naturalHeight = 150\<rparr>,
            width = Num (97 / 2), height = Num (97 / 2), revokeUrl = 1\<rparr>"
  by (simp add: loadImageFromFile_def awaitImage_def createObjectURL_def isSvgFile_iconSvg
      readText_iconSvg exampleEnv_fields exampleParser_fraction svgMarkup_not_empty
      orElse_def truthy_def initialState_def)

text \<open>
  Claim C7 at two examples: a PNG that decodes to 300 by 150, and an SVG that declares
  \<open>width="48.5" height="48.5"\<close>.
\<close>

theorem loaded_dimensions_witness:
  "(\<exists>ld. fst (loadImageFromFile exampleEnv logoPng initialState) = Inr ld
      \<and> \<not> isSvgFile logoPng \<and> width ld = Num 300 \<and> height ld = Num 150
      \<and> isInteger (width ld) \<and> isInteger (height ld) \<and> isFinite (width ld) \<and> width ld \<noteq> NaN)
   \<and> (\<exists>ld. fst (loadImageFromFile exampleEnv iconSvg initialState) = Inr ld
      \<and> isSvgFile iconSvg \<and> isFinite (width ld) \<and> width ld \<noteq> NaN \<and> width ld \<noteq> Num 0
      \<and> width ld = firstNonZero (Num (97 / 2)) 300 \<and> height ld = firstNonZero (Num (97 / 2)) 150)"
proof -
  let ?ld = "\<lparr>img = \<lparr>src = fileBlob logoPng, naturalWidth = 300, naturalHeight = 150\<rparr>,
      width = Num 300, height = Num 150, revokeUrl = 0\<rparr>"
  let ?t = "svgMarkup [(''width'', ''48.5''), (''height'', ''48.5'')]"
  let ?sv = "\<lparr>img = \<lparr>src = \<lparr>bytes = encodeText exampleEnv ?t, mime = ''image/svg+xml''\<rparr>,
                    naturalWidth = 300, naturalHeight = 150\<rparr>,
            width = Num (97 / 2), height = Num (97 / 2), revokeUrl = 1\<rparr>"
  have l: "fst (loadImageFromFile exampleEnv logoPng initialState) = Inr ?ld"
    by (simp add: run_defs file_defs string_defs number_defs)
  have s: "\<not> isSvgFile logoPng"
    by (simp add: file_defs string_defs)
  from loaded_dimensions [OF l] s
  have "isInteger (width ?ld) \<and> isInteger (height ?ld) \<and> isFinite (width ?ld) \<and> width ?ld \<noteq> NaN"
    by blast
  with l s have raster: "\<exists>ld. fst (loadImageFromFile exampleEnv logoPng initialState) = Inr ld
      \<and> \<not> isSvgFile logoPng \<and> width ld = Num 300 \<and> height ld = Num 150
      \<and> isInteger (width ld) \<and> isInteger (height ld) \<and> isFinite (width ld) \<and> width ld \<noteq> NaN"
    by (intro exI [of _ ?ld]) simp
  note l2 = load_iconSvg
  from loaded_dimensions [OF l2] isSvgFile_iconSvg
  have fin: "isFinite (width ?sv) \<and> width ?sv \<noteq> NaN \<and> width ?sv \<noteq> Num 0"
    and ex: "\<exists>svgText. readText exampleEnv iconSvg = Inr svgText
      \<and> width ?sv = firstNonZero (fst (parseSvgSize (parseFromString exampleEnv) svgText))
                       (naturalWidth (img ?sv))
      \<and> height ?sv = firstNonZero (snd (parseSvgSize (parseFromString exampleEnv) svgText))
                        (naturalHeight (img ?sv))"
    by blast+
  from ex obtain t where t: "readText exampleEnv iconSvg = Inr t"
    and w: "width ?sv = firstNonZero (fst (parseSvgSize (parseFromString exampleEnv) t))
                          (naturalWidth (img ?sv))"
    and h: "height ?sv = firstNonZero (snd (parseSvgSize (parseFromString exampleEnv) t))
                           (naturalHeight (img ?sv))"
    by blast
  from t have tt: "t = ?t"
    by (simp add: readText_iconSvg)
  have decl: "width ?sv = firstNonZero (Num (97 / 2)) 300
      \<and> height ?sv = firstNonZero (Num (97 / 2)) 150"
    using w h unfolding tt exampleEnv_fields exampleParser_fraction by simp
  from l2 isSvgFile_iconSvg fin decl
  have svg: "\<exists>ld. fst (loadImageFromFile exampleEnv iconSvg initialState) = Inr ld
      \<and> isSvgFile iconSvg \<and> isFinite (width ld) \<and> width ld \<noteq> NaN \<and> width ld \<noteq> Num 0
      \<and> width ld = firstNonZero (Num (97 / 2)) 300 \<and> height ld = firstNonZero (Num (97 / 2)) 150"
    by (intro exI [of _ ?sv]) blast
  from raster svg show ?thesis
    by (rule conjI)
qed

text \<open>
  Claim C7 as stated fails: an SVG that declares \<open>width="48.5" height="48.5"\<close> is loaded
  with width 48.5, which is not an integer.
\<close>

theorem fractional_svg_counterexample:
  "map_sum id width (fst (loadImageFromFile exampleEnv iconSvg initialState)) = Inr (Num (97 / 2))
   \<and> \<not> isInteger (Num (97 / 2))"
  by (simp add: load_iconSvg half_not_integer)

lemma batch_accepted:
  "files (handleFiles [logoPng, brokenPng, logoJpg] initialState) = [logoPng, brokenPng, logoJpg]"
  "items (handleFiles [logoPng, brokenPng, logoJpg] initialState)
     = [\<lparr>itemName = ''logo.png'', status = Ready, detail = None\<rparr>,
        \<lparr>itemName = ''broken.png'', status = Ready, detail = None\<rparr>,
        \<lparr>itemName = ''logo.jpg'', status = Ready, detail = None\<rparr>]"
  "busy (handleFiles [logoPng, brokenPng, logoJpg] initialState) = False"
  "downloads (handleFiles [logoPng, brokenPng, logoJpg] initialState) = []"
  by (simp_all add: handleFiles_def syncItems_def setItems_def file_defs string_defs
      initialState_def)

lemma failing_batch_accepted:
  "files (handleFiles [brokenPng, emptyPng] initialState) = [brokenPng, emptyPng]"
  "busy (handleFiles [brokenPng, emptyPng] initialState) = False"
  "downloads (handleFiles [brokenPng, emptyPng] initialState) = []"
  by (simp_all add: handleFiles_def syncItems_def setItems_def file_defs string_defs
      initialState_def)

text \<open>
  Claim C3 fails on the code. The batch \<open>logo.png\<close>, \<open>broken.png\<close> (corrupt),
  \<open>logo.jpg\<close> in WebP mode: the statuses end as done, error, done, the first and the
  third iteration succeed, and the archive holds one entry, not two: both artifacts are
  named \<open>logo.webp\<close>, and the second replaces the first.
\<close>

theorem colliding_names_lose_an_entry:
  "map status (items (final (convertAll exampleEnv Webp
       (handleFiles [logoPng, brokenPng, logoJpg] initialState)))) = [Done, Error, Done]
   \<and> map detail (items (final (convertAll exampleEnv Webp
       (handleFiles [logoPng, brokenPng, logoJpg] initialState))))
       = [None, Some ''Image load failed'', None]
   \<and> map isl (outcomes (convertAll exampleEnv Webp
       (handleFiles [logoPng, brokenPng, logoJpg] initialState))) = [False, True, False]
   \<and> archive (convertAll exampleEnv Webp (handleFiles [logoPng, brokenPng, logoJpg] initialState))
       = Some [(''logo.webp'', \<lparr>bytes = [1, 255, 216, 255], mime = ''image/webp''\<rparr>)]"
  by (simp add: run_defs file_defs string_defs)

text \<open>
  Two files of the same name share their status: the first succeeds, the second fails,
  and both items end in \<open>Error\<close>.
\<close>

lemma same_name_overwrites_status:
  "map isl (outcomes (convertAll exampleEnv Webp
       (handleFiles [logoPng, logoPng\<lparr>content := []\<rparr>] initialState))) = [False, True]
   \<and> map status (items (final (convertAll exampleEnv Webp
       (handleFiles [logoPng, logoPng\<lparr>content := []\<rparr>] initialState)))) = [Error, Error]"
  by (simp add: run_defs file_defs string_defs)

text \<open>
  Claim C6 fails on the code. A file whose image load fails: \<open>loadImageFromFile\<close> has
  created one object URL and throws before it returns its \<open>revoke\<close>, so the \<open>finally\<close>
  block runs the empty function and the URL is still live when the run is over.
\<close>

theorem failed_load_leaks_object_url:
  "urlCount (final (convertAll exampleEnv Webp (handleFiles [brokenPng] initialState))) = 1
   \<and> liveUrls (final (convertAll exampleEnv Webp (handleFiles [brokenPng] initialState))) = [0]
   \<and> map status (items (final (convertAll exampleEnv Webp (handleFiles [brokenPng] initialState))))
       = [Error]"
  by (simp add: run_defs file_defs string_defs)

text \<open>
  Claim C4 fails on the code. The batch \<open>photo.png\<close>, \<open>photo.jpg\<close> in WebP mode, both
  valid: both iterations succeed and both items end as done, and the archive, downloaded
  as \<open>webp-conversions.zip\<close>, holds one entry for the two successful items: both
  artifacts are named \<open>photo.webp\<close>, and the entry holds the second.
\<close>

theorem equal_base_names_share_an_entry:
  "outcomes (convertAll exampleEnv Webp (handleFiles [photoPng, photoJpg] initialState))
     = [Inr (''photo.webp'', \<lparr>bytes = [1, 137, 80, 78, 71], mime = ''image/webp''\<rparr>),
        Inr (''photo.webp'', \<lparr>bytes = [1, 255, 216, 255], mime = ''image/webp''\<rparr>)]
   \<and> map status (items (final (convertAll exampleEnv Webp
        (handleFiles [photoPng, photoJpg] initialState)))) = [Done, Done]
   \<and> archive (convertAll exampleEnv Webp (handleFiles [photoPng, photoJpg] initialState))
       = Some [(''photo.webp'', \<lparr>bytes = [1, 255, 216, 255], mime = ''image/webp''\<rparr>)]
   \<and> downloads (final (convertAll exampleEnv Webp (handleFiles [photoPng, photoJpg] initialState)))
       = [(''webp-conversions.zip'', \<lparr>bytes = [1, 255, 216, 255], mime = ''application/zip''\<rparr>)]"
  by (simp add: run_defs file_defs string_defs)

text \<open>
  With base names that differ, the same two images give two entries, and a single file
  is downloaded under its own name with no archive.
\<close>

lemma distinct_base_names_example:
  "archive (convertAll exampleEnv Webp (handleFiles [photoPng, logoJpg] initialState))
     = Some [(''photo.webp'', \<lparr>bytes = [1, 137, 80, 78, 71], mime = ''image/webp''\<rparr>),
             (''logo.webp'', \<lparr>bytes = [1, 255, 216, 255], mime = ''image/webp''\<rparr>)]
   \<and> archive (convertAll exampleEnv Webp (handleFiles [photoPng] initialState)) = None
   \<and> downloads (final (convertAll exampleEnv Webp (handleFiles [photoPng] initialState)))
       = [(''photo.webp'', \<lparr>bytes = [1, 137, 80, 78, 71], mime = ''image/webp''\<rparr>)]"
  by (simp add: run_defs file_defs string_defs)

text \<open>
  Claim C5 as stated fails: after a WebP run over one valid file, an icon run over the
  same file, with nothing done on the page during either, takes its item from \<open>Done\<close>
  back to \<open>Working\<close>.
\<close>

theorem second_run_counterexample:
  "map (map status)
     (runTrace (final (convertAllDuring exampleEnv Webp [] [] (handleFiles [logoPng] initialState)))
        (convertAllDuring exampleEnv Ico [] []
           (final (convertAllDuring exampleEnv Webp [] [] (handleFiles [logoPng] initialState)))))
     = [[Done], [Working], [Done]]
   \<and> \<not> successively (itemsStep allowedStep)
     (runTrace (final (convertAllDuring exampleEnv Webp [] [] (handleFiles [logoPng] initialState)))
        (convertAllDuring exampleEnv Ico [] []
           (final (convertAllDuring exampleEnv Webp [] [] (handleFiles [logoPng] initialState)))))"
  by (simp add: convertAllDuring_none) (simp add: run_defs file_defs string_defs buildIcoBlob_bytes)

text \<open>
  Claim C5 at an example: the first run over three files with distinct names, during
  which the user moves the quality slider and picks another icon size.
\<close>

theorem run_transitions_witness:
  "list_all (\<lambda>a. \<not> replacesItems a) (concat [[SetQuality (Num 1)], [], [SetIconSize 32]] @ [SetIconSize 64])
   \<and> list_all (\<lambda>it. status it = Ready) (items (handleFiles [logoPng, brokenPng, logoJpg] initialState))
   \<and> distinct (map name (files (handleFiles [logoPng, brokenPng, logoJpg] initialState)))
   \<and> successively (itemsStep allowedStep)
       (runTrace (handleFiles [logoPng, brokenPng, logoJpg] initialState)
          (convertAllDuring exampleEnv Webp [[SetQuality (Num 1)], [], [SetIconSize 32]] [SetIconSize 64]
             (handleFiles [logoPng, brokenPng, logoJpg] initialState)))
   \<and> successively (itemsStep restartStep)
       (runTrace (handleFiles [logoPng, brokenPng, logoJpg] initialState)
          (convertAllDuring exampleEnv Webp [[SetQuality (Num 1)], [], [SetIconSize 32]] [SetIconSize 64]
             (handleFiles [logoPng, brokenPng, logoJpg] initialState)))"
proof -
  let ?st = "handleFiles [logoPng, brokenPng, logoJpg] initialState"
  have a: "list_all (\<lambda>a. \<not> replacesItems a)
      (concat [[SetQuality (Num 1)], [], [SetIconSize 32]] @ [SetIconSize 64])"
    by (simp add: replacesItems_def)
  have r: "\<forall>it \<in> set (items ?st). status it = Ready"
    and l: "list_all (\<lambda>it. status it = Ready) (items ?st)"
    and d: "distinct (map name (files ?st))"
    by (simp_all only: batch_accepted) (simp_all add: logoPng_def brokenPng_def logoJpg_def)
  from run_transitions [OF a, of ?st exampleEnv Webp] r d a l show ?thesis
    by blast
qed

text \<open>
  Why the amended claim leaves out what replaces the item list: the user selects the same
  file again while its image loads. The item list is replaced by a ready item, which the
  running iteration then sets to done: \<open>Ready\<close> to \<open>Done\<close>, with no \<open>Working\<close> between.
\<close>

lemma select_during_run_skips_working:
  "map (map status)
     (runTrace (handleFiles [logoPng] initialState)
        (convertAllDuring exampleEnv Webp [[SelectFiles [logoPng]]] []
           (handleFiles [logoPng] initialState)))
     = [[Ready], [Working], [Ready], [Done]]"
  by (simp add: during_defs run_defs file_defs string_defs)

text \<open>
  Why it asks for distinct names to exclude a return to \<open>Working\<close>: two files of the same
  name share their items, which the second iteration takes from \<open>Done\<close> back to
  \<open>Working\<close>.
\<close>

lemma same_name_reworks_item:
  "map (map status)
     (runTrace (handleFiles [logoPng, logoPng] initialState)
        (convertAllDuring exampleEnv Webp [] [] (handleFiles [logoPng, logoPng] initialState)))
     = [[Ready, Ready], [Working, Working], [Done, Done], [Working, Working], [Done, Done]]"
  by (simp add: convertAllDuring_none) (simp add: run_defs file_defs string_defs)

text \<open>
  Claim C10 at an example: two corrupt files in icon mode; the archive of zero entries is
  built and downloaded as \<open>ico-icons.zip\<close>.
\<close>

theorem convertAll_all_failed_witness:
  "\<not> busy (handleFiles [brokenPng, emptyPng] initialState)
   \<and> files (handleFiles [brokenPng, emptyPng] initialState) \<noteq> []
   \<and> length (files (handleFiles [brokenPng, emptyPng] initialState)) > 1
   \<and> list_all isl (outcomes (convertAll exampleEnv Ico (handleFiles [brokenPng, emptyPng] initialState)))
   \<and> archive (convertAll exampleEnv Ico (handleFiles [brokenPng, emptyPng] initialState)) = Some []
   \<and> downloads (final (convertAll exampleEnv Ico (handleFiles [brokenPng, emptyPng] initialState)))
       = [(''ico-icons.zip'', \<lparr>bytes = [], mime = ''application/zip''\<rparr>)]"
proof -
  let ?st = "handleFiles [brokenPng, emptyPng] initialState"
  have b: "\<not> busy ?st" and f: "files ?st \<noteq> []" and n: "length (files ?st) > 1"
    and d: "downloads ?st = []"
    by (simp_all add: failing_batch_accepted)
  have o: "outcomes (convertAll exampleEnv Ico ?st)
      = [Inl (JsError ''Image load failed''), Inl (JsError ''Image load failed'')]"
    by (simp add: run_defs file_defs string_defs)
  then have a: "\<forall>r \<in> set (outcomes (convertAll exampleEnv Ico ?st)). isl r"
    and l: "list_all isl (outcomes (convertAll exampleEnv Ico ?st))"
    by simp_all
  have g: "generateAsync exampleEnv [] = Inr \<lparr>bytes = [], mime = ''application/zip''\<rparr>"
    by (simp add: exampleEnv_def)
  from convertAll_all_failed [OF b f, of exampleEnv Ico] n a
  have "archive (convertAll exampleEnv Ico ?st) = Some []
    \<and> downloads (final (convertAll exampleEnv Ico ?st))
        = downloads ?st @ (case generateAsync exampleEnv [] of
                             Inr zipBlob \<Rightarrow> [(zipName Ico, zipBlob)]
                           | Inl err \<Rightarrow> [])"
    by blast
  with b f n l d g show ?thesis
    by (simp add: zipName_def)
qed

text \<open>
  Claim C8 at an example: quality 0.5 and quality 1.
\<close>

theorem ico_output_independent_of_quality_witness:
  "downloads (final (convertAll exampleEnv Ico
      ((handleFiles [logoPng] initialState)\<lparr>quality := Num (1 / 2)\<rparr>)))
   = downloads (final (convertAll exampleEnv Ico
      ((handleFiles [logoPng] initialState)\<lparr>quality := Num 1\<rparr>)))"
  using ico_output_independent_of_quality
    [where e = exampleEnv and st = "handleFiles [logoPng] initialState" and ?q1.0 = "Num (1 / 2)"
       and ?q2.0 = "Num 1"]
  by blast

end
